theory Spec2Isabelle
  imports Complex_Main
begin

section \<open>The QR error correction tester (src/src/App.tsx)\<close>

text \<open>
  The program is one React component with a handful of helper functions. The helpers
  are pure and are modelled as HOL functions of the same names; the effects of the
  component are modelled as functions on a record of its state variables, and the
  asynchronous completions as events of a transition system.

  The program calls built-ins of its platform (ECMAScript numbers and strings, the
  URL Standard's \<open>URLSearchParams\<close>, the 2D canvas). They are not code of the
  repository; the first sections model the parts of them the program uses, following
  their standards.
\<close>

section \<open>Numbers of the platform\<close>

text \<open>
  A JavaScript number is NaN, an infinity or a finite binary64 value. A finite value
  is represented by the rational it denotes; \<open>-0\<close> is identified with \<open>0\<close>
  (the program never divides by a zero it computed and never prints a sign of zero).
  Every arithmetic operation and every conversion from text rounds its exact result to
  binary64, as ECMAScript prescribes.
\<close>

datatype number = NaN | PosInf | NegInf | Fin rat

text \<open>The comparison \<open>a < b\<close>: false as soon as one side is NaN.\<close>

fun num_less :: "number \<Rightarrow> number \<Rightarrow> bool" where
  "num_less NaN _ = False"
| "num_less _ NaN = False"
| "num_less PosInf _ = False"
| "num_less _ PosInf = True"
| "num_less _ NegInf = False"
| "num_less NegInf _ = True"
| "num_less (Fin x) (Fin y) = (x < y)"

definition Math_max :: "number \<Rightarrow> number \<Rightarrow> number" where
  "Math_max a b = (if a = NaN \<or> b = NaN then NaN else if num_less a b then b else a)"

definition Math_min :: "number \<Rightarrow> number \<Rightarrow> number" where
  "Math_min a b = (if a = NaN \<or> b = NaN then NaN else if num_less b a then b else a)"

text \<open>\<open>Math.round\<close>: the nearest integer, a tie going towards \<open>+\<infinity>\<close>.\<close>

fun Math_round :: "number \<Rightarrow> number" where
  "Math_round (Fin x) = Fin (of_int \<lfloor>x + 1 / 2\<rfloor>)"
| "Math_round n = n"

fun Number_isFinite :: "number \<Rightarrow> bool" where
  "Number_isFinite (Fin x) = True"
| "Number_isFinite n = False"

subsection \<open>Rounding a real value to binary64\<close>

text \<open>The number of binary digits of a positive integer.\<close>

function bit_length :: "int \<Rightarrow> nat" where
  "bit_length n = (if n \<le> 0 then 0 else Suc (bit_length (n div 2)))"
  by pat_completeness auto
termination
  by (relation "measure nat") auto

definition pow2 :: "int \<Rightarrow> rat" where
  "pow2 k = (if 0 \<le> k then of_int (2 ^ nat k) else 1 / of_int (2 ^ nat (- k)))"

definition pow10 :: "int \<Rightarrow> rat" where
  "pow10 k = (if 0 \<le> k then of_int (10 ^ nat k) else 1 / of_int (10 ^ nat (- k)))"

text \<open>For \<open>x > 0\<close>, the integer \<open>e\<close> with \<open>2 ^ e \<le> x < 2 ^ (e + 1)\<close>.\<close>

definition floor_log2 :: "rat \<Rightarrow> int" where
  "floor_log2 x =
     (let (a, b) = quotient_of x;
          d = int (bit_length a) - int (bit_length b)
      in if pow2 d \<le> x then d else d - 1)"

definition round_half_even :: "rat \<Rightarrow> int" where
  "round_half_even x =
     (let f = \<lfloor>x\<rfloor>; d = x - of_int f
      in if d < 1 / 2 then f else if 1 / 2 < d then f + 1
         else if even f then f else f + 1)"

text \<open>
  The Number value for a real \<open>x\<close> (ECMAScript 6.1.6.1): the nearest binary64 value,
  ties to the even significand; the spacing of the values around \<open>x\<close> is
  \<open>2 ^ (e - 52)\<close>, with \<open>e\<close> not below \<open>-1022\<close> (subnormals); a result of
  \<open>2 ^ 1024\<close> or more is an infinity.
\<close>

definition round_double :: "rat \<Rightarrow> number" where
  "round_double x =
     (if x = 0 then Fin 0
      else let u = pow2 (max (floor_log2 \<bar>x\<bar>) (- 1022) - 52);
               r = of_int (round_half_even (\<bar>x\<bar> / u)) * u
           in if of_int (2 ^ 1024) \<le> r then (if 0 < x then PosInf else NegInf)
              else Fin (if 0 < x then r else - r))"

subsection \<open>The arithmetic operators\<close>

text \<open>
  \<open>a * b\<close>, \<open>a / b\<close> and \<open>a - b\<close> (ECMAScript 6.1.6.1.4, 6.1.6.1.5 and
  6.1.6.1.8): on finite operands the exact result, rounded to binary64; with NaN or an
  infinity the IEEE rules; a zero divisor counts as \<open>+0\<close>.
\<close>

fun num_sgn :: "number \<Rightarrow> rat" where
  "num_sgn (Fin x) = sgn x"
| "num_sgn PosInf = 1"
| "num_sgn NegInf = - 1"
| "num_sgn NaN = 0"

definition num_mul :: "number \<Rightarrow> number \<Rightarrow> number" where
  "num_mul a b =
     (case (a, b) of
        (Fin x, Fin y) \<Rightarrow> round_double (x * y)
      | _ \<Rightarrow>
          if a = NaN \<or> b = NaN \<or> num_sgn a * num_sgn b = 0 then NaN
          else if 0 < num_sgn a * num_sgn b then PosInf else NegInf)"

definition num_div :: "number \<Rightarrow> number \<Rightarrow> number" where
  "num_div a b =
     (case (a, b) of
        (Fin x, Fin y) \<Rightarrow>
          if y = 0 then (if x = 0 then NaN else if 0 < x then PosInf else NegInf)
          else round_double (x / y)
      | (Fin x, _) \<Rightarrow> if b = NaN then NaN else Fin 0
      | (_, Fin y) \<Rightarrow>
          if a = NaN then NaN
          else if (0 \<le> y) = (a = PosInf) then PosInf else NegInf
      | _ \<Rightarrow> NaN)"

definition num_sub :: "number \<Rightarrow> number \<Rightarrow> number" where
  "num_sub a b =
     (case (a, b) of
        (Fin x, Fin y) \<Rightarrow> round_double (x - y)
      | _ \<Rightarrow>
          if a = NaN \<or> b = NaN \<or> a = b then NaN
          else if a = PosInf \<or> b = NegInf then PosInf else NegInf)"

section \<open>Strings of the platform\<close>

text \<open>
  A text is modelled by the bytes of its UTF-8 encoding (\<open>string\<close> is a list of
  8-bit characters), which is the form in which \<open>URLSearchParams\<close> percent-encodes
  it. Texts are well-formed Unicode: a JavaScript string with an unpaired surrogate has
  no UTF-8 encoding and is outside the model.
\<close>

subsection \<open>\<open>String.prototype.trim\<close>\<close>

text \<open>
  White space and line terminators of ECMAScript, by the length of their UTF-8
  encoding: TAB, LF, VT, FF, CR, SP; U+00A0; U+1680, U+2000 to U+200A, U+2028,
  U+2029, U+202F, U+205F, U+3000 and U+FEFF.
\<close>

definition ws1 :: "char \<Rightarrow> bool" where
  "ws1 a = (of_char a \<in> {9, 10, 11, 12, 13, 32 :: int})"

definition ws2 :: "char \<Rightarrow> char \<Rightarrow> bool" where
  "ws2 a b = (of_char a = (0xC2 :: int) \<and> of_char b = (0xA0 :: int))"

definition ws3 :: "char \<Rightarrow> char \<Rightarrow> char \<Rightarrow> bool" where
  "ws3 a b c =
     (let x = of_char a :: int; y = of_char b :: int; z = of_char c :: int
      in (x = 0xE1 \<and> y = 0x9A \<and> z = 0x80)
       \<or> (x = 0xE2 \<and> y = 0x80 \<and> (0x80 \<le> z \<and> z \<le> 0x8A \<or> z = 0xA8 \<or> z = 0xA9 \<or> z = 0xAF))
       \<or> (x = 0xE2 \<and> y = 0x81 \<and> z = 0x9F)
       \<or> (x = 0xE3 \<and> y = 0x80 \<and> z = 0x80)
       \<or> (x = 0xEF \<and> y = 0xBB \<and> z = 0xBF))"

text \<open>
  Dropping the white space at the front of a string; with \<open>r\<close> set the string is
  read back to front, so that the multi-byte encodings are matched reversed.
\<close>

fun drop_ws :: "bool \<Rightarrow> string \<Rightarrow> string" where
  "drop_ws r [] = []"
| "drop_ws r (a # s) =
     (if ws1 a then drop_ws r s
      else (case s of
        [] \<Rightarrow> [a]
      | b # t \<Rightarrow>
          (if (if r then ws2 b a else ws2 a b) then drop_ws r t
           else (case t of
             [] \<Rightarrow> a # s
           | c # u \<Rightarrow>
               (if (if r then ws3 c b a else ws3 a b c) then drop_ws r u else a # s)))))"

definition trim :: "string \<Rightarrow> string" where
  "trim s = rev (drop_ws True (rev (drop_ws False s)))"

subsection \<open>\<open>Number(string)\<close>\<close>

definition is_digit :: "char \<Rightarrow> bool" where
  "is_digit c = (48 \<le> (of_char c :: int) \<and> (of_char c :: int) \<le> 57)"

text \<open>The value of a hexadecimal digit (which covers the decimal ones), if it is one.\<close>

definition hex_value :: "char \<Rightarrow> int option" where
  "hex_value c =
     (let n = of_char c :: int
      in if 48 \<le> n \<and> n \<le> 57 then Some (n - 48)
         else if 65 \<le> n \<and> n \<le> 70 then Some (n - 55)
         else if 97 \<le> n \<and> n \<le> 102 then Some (n - 87)
         else None)"

text \<open>
  The number a non-empty string of digits of base \<open>b\<close> denotes; \<open>None\<close> when the
  string is empty or holds another character.
\<close>

fun digits_value :: "int \<Rightarrow> int \<Rightarrow> string \<Rightarrow> int option" where
  "digits_value b acc [] = Some acc"
| "digits_value b acc (c # cs) =
     (case hex_value c of
        None \<Rightarrow> None
      | Some d \<Rightarrow> if d < b then digits_value b (acc * b + d) cs else None)"

definition based_literal :: "int \<Rightarrow> string \<Rightarrow> int option" where
  "based_literal b ds = (if ds = [] then None else digits_value b 0 ds)"

text \<open>
  \<open>ExponentPart\<close> or nothing: \<open>e\<close> or \<open>E\<close>, an optional sign and digits up to the
  end of the string.
\<close>

definition exponent_part :: "string \<Rightarrow> int option" where
  "exponent_part s =
     (case s of
        [] \<Rightarrow> Some 0
      | c # t \<Rightarrow>
          if c = CHR ''e'' \<or> c = CHR ''E'' then
            (case t of
               [] \<Rightarrow> None
             | d # u \<Rightarrow>
                 if d = CHR ''-'' then map_option uminus (based_literal 10 u)
                 else if d = CHR ''+'' then based_literal 10 u
                 else based_literal 10 t)
          else None)"

text \<open>
  \<open>StrUnsignedDecimalLiteral\<close> other than \<open>Infinity\<close>: digits, an optional point
  with digits, an optional exponent; at least one digit before or after the point. The
  result is the mathematical value.
\<close>

definition unsigned_decimal :: "string \<Rightarrow> rat option" where
  "unsigned_decimal s =
     (let ip = takeWhile is_digit s; r1 = dropWhile is_digit s;
          fp = (case r1 of [] \<Rightarrow> [] | c # t \<Rightarrow> if c = CHR ''.'' then takeWhile is_digit t else []);
          r2 = (case r1 of [] \<Rightarrow> [] | c # t \<Rightarrow> if c = CHR ''.'' then dropWhile is_digit t else r1)
      in if ip = [] \<and> fp = [] then None
         else case (digits_value 10 0 (ip @ fp), exponent_part r2) of
                (Some m, Some e) \<Rightarrow> Some (of_int m * pow10 (e - int (length fp)))
              | _ \<Rightarrow> None)"

definition str_decimal :: "string \<Rightarrow> number" where
  "str_decimal s =
     (if s = ''Infinity'' \<or> s = ''+Infinity'' then PosInf
      else if s = ''-Infinity'' then NegInf
      else case s of
        [] \<Rightarrow> NaN
      | c # t \<Rightarrow>
          if c = CHR ''-'' then
            (case unsigned_decimal t of None \<Rightarrow> NaN | Some v \<Rightarrow> round_double (- v))
          else if c = CHR ''+'' then
            (case unsigned_decimal t of None \<Rightarrow> NaN | Some v \<Rightarrow> round_double v)
          else
            (case unsigned_decimal s of None \<Rightarrow> NaN | Some v \<Rightarrow> round_double v))"

text \<open>
  \<open>StringToNumber\<close> (ECMAScript 7.1.4.1.1): the string without the white space
  around it is empty (the value is 0), a binary, octal or hexadecimal integer literal
  (no sign), or a signed decimal literal; anything else is NaN.
\<close>

definition StringToNumber :: "string \<Rightarrow> number" where
  "StringToNumber str =
     (let s = trim str
      in case s of
        [] \<Rightarrow> Fin 0
      | z # r \<Rightarrow>
          (case r of
             p # ds \<Rightarrow>
               if z = CHR ''0'' \<and> (p = CHR ''b'' \<or> p = CHR ''B'') then
                 (case based_literal 2 ds of None \<Rightarrow> NaN | Some n \<Rightarrow> round_double (of_int n))
               else if z = CHR ''0'' \<and> (p = CHR ''o'' \<or> p = CHR ''O'') then
                 (case based_literal 8 ds of None \<Rightarrow> NaN | Some n \<Rightarrow> round_double (of_int n))
               else if z = CHR ''0'' \<and> (p = CHR ''x'' \<or> p = CHR ''X'') then
                 (case based_literal 16 ds of None \<Rightarrow> NaN | Some n \<Rightarrow> round_double (of_int n))
               else str_decimal s
           | [] \<Rightarrow> str_decimal s))"

text \<open>\<open>Number(value)\<close> for a string or \<open>null\<close>: \<open>null\<close> converts to 0.\<close>

fun Number :: "string option \<Rightarrow> number" where
  "Number None = Fin 0"
| "Number (Some s) = StringToNumber s"

subsection \<open>\<open>String(number)\<close>\<close>

definition digit_char :: "int \<Rightarrow> char" where
  "digit_char d = char_of (48 + d)"

text \<open>The decimal digits of a non-negative integer, without leading zeros.\<close>

function int_digits :: "int \<Rightarrow> string" where
  "int_digits n = (if n < 10 then [digit_char n] else int_digits (n div 10) @ [digit_char (n mod 10)])"
  by pat_completeness auto
termination
  by (relation "measure nat") auto

text \<open>For \<open>x > 0\<close>, the integer \<open>n\<close> with \<open>10 ^ (n - 1) \<le> x < 10 ^ n\<close>.\<close>

definition dec_exponent :: "rat \<Rightarrow> int" where
  "dec_exponent x =
     (let (a, b) = quotient_of x;
          d = int (length (int_digits a)) - int (length (int_digits b))
      in if x < pow10 d then d else d + 1)"

text \<open>
  The decimal of \<open>k\<close> significant digits nearest to \<open>x > 0\<close> among those whose Number
  value is \<open>t\<close>, if there is one: it is the decimal just below \<open>x\<close> or the one just
  above.
\<close>

definition shortest_at :: "number \<Rightarrow> rat \<Rightarrow> int \<Rightarrow> rat option" where
  "shortest_at t x k =
     (let sc = pow10 (dec_exponent x - k); f = \<lfloor>x / sc\<rfloor>;
          lo = of_int f * sc; hi = of_int (f + 1) * sc;
          okl = (round_double lo = t); okh = (round_double hi = t)
      in if okl \<and> okh then
           Some (if x - lo < hi - x then lo else if hi - x < x - lo then hi
                 else if even f then lo else hi)
         else if okl then Some lo else if okh then Some hi else None)"

text \<open>
  \<open>Number::toString\<close> (ECMAScript 6.1.6.1.20) for a positive value: the digits
  \<open>s\<close> and the exponent \<open>n\<close> of the decimal \<open>s * 10 ^ (n - k)\<close> with the fewest
  digits \<open>k\<close> whose Number value is that of \<open>x\<close>; seventeen digits always
  suffice. Then the layout: plain digits, a decimal point, leading zeros or the
  exponent notation.
\<close>

definition shortest_decimal :: "rat \<Rightarrow> string \<times> int" where
  "shortest_decimal x =
     (case List.map_filter (\<lambda>k. map_option (\<lambda>v. (v, k)) (shortest_at (round_double x) x k))
             (map int [1 ..< 18]) of
        (v, k) # _ \<Rightarrow> (int_digits \<lfloor>v / pow10 (dec_exponent v - k)\<rfloor>, dec_exponent v)
      | [] \<Rightarrow> (int_digits \<lfloor>x / pow10 (dec_exponent x - 17)\<rfloor>, dec_exponent x))"

definition layout :: "string \<Rightarrow> int \<Rightarrow> string" where
  "layout ds n =
     (let k = int (length ds)
      in if k \<le> n \<and> n \<le> 21 then ds @ replicate (nat (n - k)) (CHR ''0'')
         else if 0 < n \<and> n \<le> 21 then take (nat n) ds @ ''.'' @ drop (nat n) ds
         else if - 6 < n \<and> n \<le> 0 then ''0.'' @ replicate (nat (- n)) (CHR ''0'') @ ds
         else (if k = 1 then ds else take 1 ds @ ''.'' @ drop 1 ds)
              @ ''e'' @ (if n - 1 < 0 then ''-'' else ''+'') @ int_digits \<bar>n - 1\<bar>)"

text \<open>
  An integer below \<open>2 ^ 53\<close> is a binary64 value, and the shortest decimal with its
  Number value is its own decimal expansion.
\<close>

definition positive_to_string :: "rat \<Rightarrow> string" where
  "positive_to_string x =
     (if of_int \<lfloor>x\<rfloor> = x \<and> x < of_int (2 ^ 53) then int_digits \<lfloor>x\<rfloor>
      else case shortest_decimal x of (ds, n) \<Rightarrow> layout ds n)"

text \<open>What is printed is the binary64 value of the number.\<close>

fun NumberToString :: "number \<Rightarrow> string" where
  "NumberToString NaN = ''NaN''"
| "NumberToString PosInf = ''Infinity''"
| "NumberToString NegInf = ''-Infinity''"
| "NumberToString (Fin x) =
     (case round_double x of
        Fin y \<Rightarrow>
          (if y = 0 then ''0''
           else if y < 0 then CHR ''-'' # positive_to_string (- y)
           else positive_to_string y)
      | PosInf \<Rightarrow> ''Infinity''
      | NegInf \<Rightarrow> ''-Infinity''
      | NaN \<Rightarrow> ''NaN'')"

section \<open>\<open>URLSearchParams\<close> (URL Standard)\<close>

text \<open>
  The object is a list of name-value pairs; order and repeated names matter. The
  serializer and the parser are those of \<open>application/x-www-form-urlencoded\<close>, on
  the UTF-8 bytes of the strings. The parser's last step, which replaces bytes that are
  not UTF-8 by U+FFFD, is left out: it is the identity on every text.
\<close>

type_synonym params = "(string \<times> string) list"

definition hex_char :: "int \<Rightarrow> char" where
  "hex_char d = (if d < 10 then char_of (48 + d) else char_of (55 + d))"

text \<open>Bytes the serializer leaves as they are: ASCII letters and digits, \<open>* - . _\<close>.\<close>

definition urlencoded_safe :: "char \<Rightarrow> bool" where
  "urlencoded_safe c =
     (let n = of_char c :: int
      in (48 \<le> n \<and> n \<le> 57) \<or> (65 \<le> n \<and> n \<le> 90) \<or> (97 \<le> n \<and> n \<le> 122)
         \<or> n = 42 \<or> n = 45 \<or> n = 46 \<or> n = 95)"

definition serialize_byte :: "char \<Rightarrow> string" where
  "serialize_byte c =
     (if c = CHR '' '' then ''+''
      else if urlencoded_safe c then [c]
      else [CHR ''%'', hex_char (of_char c div 16), hex_char (of_char c mod 16)])"

definition serialize_bytes :: "string \<Rightarrow> string" where
  "serialize_bytes s = concat (map serialize_byte s)"

fun urlencoded_serialize :: "params \<Rightarrow> string" where
  "urlencoded_serialize [] = []"
| "urlencoded_serialize [(n, v)] = serialize_bytes n @ ''='' @ serialize_bytes v"
| "urlencoded_serialize ((n, v) # ps) =
     serialize_bytes n @ ''='' @ serialize_bytes v @ ''&'' @ urlencoded_serialize ps"

text \<open>Splitting at every occurrence of a separator; the pieces may be empty.\<close>

fun split_on :: "char \<Rightarrow> string \<Rightarrow> string list" where
  "split_on d [] = [[]]"
| "split_on d (c # cs) =
     (if c = d then [] # split_on d cs
      else (case split_on d cs of p # ps \<Rightarrow> (c # p) # ps | [] \<Rightarrow> [[c]]))"

text \<open>
  Percent-decoding: \<open>%\<close> followed by two hexadecimal digits is the byte they
  denote; every other byte, a \<open>%\<close> not so followed included, stands for itself.
\<close>

fun percent_decode :: "string \<Rightarrow> string" where
  "percent_decode [] = []"
| "percent_decode (c # cs) =
     (if c = CHR ''%'' then
        (case cs of
           h # l # r \<Rightarrow>
             (case (hex_value h, hex_value l) of
                (Some a, Some b) \<Rightarrow> char_of (a * 16 + b) # percent_decode r
              | _ \<Rightarrow> c # percent_decode cs)
         | _ \<Rightarrow> c # percent_decode cs)
      else c # percent_decode cs)"

definition plus_to_space :: "string \<Rightarrow> string" where
  "plus_to_space s = map (\<lambda>c. if c = CHR ''+'' then CHR '' '' else c) s"

definition parse_pair :: "string \<Rightarrow> string \<times> string" where
  "parse_pair bytes =
     (let n = takeWhile (\<lambda>c. c \<noteq> CHR ''='') bytes;
          v = drop 1 (dropWhile (\<lambda>c. c \<noteq> CHR ''='') bytes)
      in (percent_decode (plus_to_space n), percent_decode (plus_to_space v)))"

definition urlencoded_parse :: "string \<Rightarrow> params" where
  "urlencoded_parse input = map parse_pair (filter (\<lambda>b. b \<noteq> []) (split_on (CHR ''&'') input))"

text \<open>\<open>new URLSearchParams(init)\<close> for a string: one leading \<open>?\<close> is dropped.\<close>

definition URLSearchParams :: "string \<Rightarrow> params" where
  "URLSearchParams init =
     urlencoded_parse (case init of c # r \<Rightarrow> if c = CHR ''?'' then r else init | [] \<Rightarrow> init)"

text \<open>\<open>get\<close>: the value of the first pair of that name, or \<open>null\<close>.\<close>

definition get :: "params \<Rightarrow> string \<Rightarrow> string option" where
  "get ps name = map_of ps name"

text \<open>
  \<open>set\<close>: the first pair of that name gets the value and the others of that name
  are removed; without such a pair, one is appended.
\<close>

fun set_param :: "params \<Rightarrow> string \<Rightarrow> string \<Rightarrow> params" where
  "set_param [] name v = [(name, v)]"
| "set_param ((n, x) # ps) name v =
     (if n = name then (n, v) # filter (\<lambda>p. fst p \<noteq> name) ps
      else (n, x) # set_param ps name v)"

definition toString :: "params \<Rightarrow> string" where
  "toString ps = urlencoded_serialize ps"

section \<open>The helpers of the component\<close>

subsection \<open>Types and constants (lines 14 to 45)\<close>

datatype ErrorLevel = L | M | Q | H

datatype DecodeStatus = untested | success | failed

record QrOptions =
  errorLevel :: ErrorLevel

record MaskOptions =
  sizePercent :: number
  centerXPercent :: number
  centerYPercent :: number
  opacityPercent :: number

definition defaultOptions :: QrOptions where
  "defaultOptions = \<lparr>errorLevel = M\<rparr>"

definition defaultMaskOptions :: MaskOptions where
  "defaultMaskOptions =
     \<lparr>sizePercent = Fin 18, centerXPercent = Fin 50, centerYPercent = Fin 50,
      opacityPercent = Fin 100\<rparr>"

text \<open>
  The fields of \<open>PermalinkState\<close> are \<open>text\<close>, \<open>options\<close> and \<open>maskOptions\<close> in
  the source.
\<close>

record PermalinkState =
  st_text :: string
  st_options :: QrOptions
  st_maskOptions :: MaskOptions

definition errorLevels :: "ErrorLevel list" where
  "errorLevels = [L, M, Q, H]"

text \<open>An error level is the one-letter string of its name.\<close>

fun level_string :: "ErrorLevel \<Rightarrow> string" where
  "level_string L = ''L''"
| "level_string M = ''M''"
| "level_string Q = ''Q''"
| "level_string H = ''H''"

subsection \<open>\<open>clamp\<close> (lines 59 to 61)\<close>

definition clamp :: "number \<Rightarrow> number \<Rightarrow> number \<Rightarrow> number" where
  "clamp v lo hi = Math_min hi (Math_max lo v)"

subsection \<open>The permalink codec (lines 136 to 196)\<close>

definition parseNumber :: "string option \<Rightarrow> number \<Rightarrow> number \<Rightarrow> number \<Rightarrow> number" where
  "parseNumber v fallback lo hi =
     (let parsed = Number v
      in if \<not> Number_isFinite parsed then fallback
         else clamp (Math_round parsed) lo hi)"

text \<open>
  \<open>value && errorLevels.includes(value)\<close>: the value is neither \<open>null\<close> nor the
  empty string, and it is one of the four levels.
\<close>

definition parseErrorLevel :: "string option \<Rightarrow> ErrorLevel \<Rightarrow> ErrorLevel" where
  "parseErrorLevel v fallback =
     (case v of
        None \<Rightarrow> fallback
      | Some s \<Rightarrow>
          (if s \<noteq> [] then
             (case find (\<lambda>l. level_string l = s) errorLevels of
                Some l \<Rightarrow> l
              | None \<Rightarrow> fallback)
           else fallback))"

text \<open>
  The window, as far as the program reads it: \<open>window.location.search\<close> and
  \<open>window.location.pathname\<close>. Where the source tests
  \<open>typeof window === 'undefined'\<close> the model takes an optional window.
\<close>

record window =
  search :: string
  pathname :: string

definition parsePermalinkState :: "window option \<Rightarrow> PermalinkState" where
  "parsePermalinkState w =
     (case w of
        None \<Rightarrow>
          \<lparr>st_text = ''https://example.com'', st_options = defaultOptions,
           st_maskOptions = defaultMaskOptions\<rparr>
      | Some win \<Rightarrow>
          (let ps = URLSearchParams (search win);
               textParam = get ps ''t'';
               opts = \<lparr>errorLevel = parseErrorLevel (get ps ''e'') (errorLevel defaultOptions)\<rparr>;
               maskOpts =
                 \<lparr>sizePercent =
                    parseNumber (get ps ''ms'') (sizePercent defaultMaskOptions) (Fin 0) (Fin 45),
                  centerXPercent =
                    parseNumber (get ps ''mx'') (centerXPercent defaultMaskOptions) (Fin 0) (Fin 100),
                  centerYPercent =
                    parseNumber (get ps ''my'') (centerYPercent defaultMaskOptions) (Fin 0) (Fin 100),
                  opacityPercent =
                    parseNumber (get ps ''mo'') (opacityPercent defaultMaskOptions) (Fin 10) (Fin 100)\<rparr>
           in \<lparr>st_text = (case textParam of None \<Rightarrow> ''https://example.com'' | Some t \<Rightarrow> t),
               st_options = opts, st_maskOptions = maskOpts\<rparr>))"

definition createPermalink :: "window option \<Rightarrow> string \<Rightarrow> QrOptions \<Rightarrow> MaskOptions \<Rightarrow> string" where
  "createPermalink w t opts maskOpts =
     (case w of
        None \<Rightarrow> []
      | Some win \<Rightarrow>
          (let p0 = [];
               p1 = set_param p0 ''t'' t;
               p2 = set_param p1 ''e'' (level_string (errorLevel opts));
               p3 = set_param p2 ''ms'' (NumberToString (sizePercent maskOpts));
               p4 = set_param p3 ''mx'' (NumberToString (centerXPercent maskOpts));
               p5 = set_param p4 ''my'' (NumberToString (centerYPercent maskOpts));
               p6 = set_param p5 ''mo'' (NumberToString (opacityPercent maskOpts));
               query = toString p6
           in if query \<noteq> [] then CHR ''?'' # query else pathname win))"

subsection \<open>\<open>fixedMaskRgba\<close> and \<open>getDecodeMessage\<close> (lines 63 to 76)\<close>

definition fixedMaskRgba :: "number \<Rightarrow> string" where
  "fixedMaskRgba alpha = ''rgba(113, 75, 75, '' @ NumberToString (clamp alpha (Fin 0) (Fin 1)) @ '')''"

text \<open>
  The two messages start with U+2705 and U+274C, here in UTF-8. The misspelling of the
  second is the source's.
\<close>

fun getDecodeMessage :: "DecodeStatus \<Rightarrow> string" where
  "getDecodeMessage success = [CHR 0xE2, CHR 0x9C, CHR 0x85] @ '' Readable''"
| "getDecodeMessage failed = [CHR 0xE2, CHR 0x9D, CHR 0x8C] @ '' Unreable''"
| "getDecodeMessage untested = []"

section \<open>Masking and testing: \<open>applyMaskAndTest\<close> (lines 87 to 134)\<close>

text \<open>
  An image is a raster of pixels, row by row; the kind of pixel \<open>'p\<close> is left open.
  The canvas of the function is such a raster too. What the browser and the decoding
  library contribute is a parameter of the model:
  \<^item> \<open>loadImage\<close> decodes a data URL, or fails (the promise of lines 78 to 85 is
    rejected);
  \<^item> \<open>getContext\<close> tells whether the canvas has a 2D context;
  \<^item> \<open>fill\<close> is what painting with a fill style does to one pixel;
  \<^item> \<open>toDataURL\<close> is the PNG export of a raster;
  \<^item> \<open>jsQR\<close> is the decoder: the text of the code it finds in a raster, if any.
\<close>

record 'p image =
  width :: nat
  height :: nat
  rows :: "'p list list"

record 'p platform =
  loadImage :: "string \<Rightarrow> 'p image option"
  getContext :: bool
  fill :: "string \<Rightarrow> 'p \<Rightarrow> 'p"
  toDataURL :: "'p image \<Rightarrow> string"
  jsQR :: "'p image \<Rightarrow> string option"

datatype error = Failed_to_load_image | Canvas_context_is_unavailable

record applied =
  maskedDataUrl :: string
  decodeStatus :: DecodeStatus

text \<open>
  \<open>fillRect(x, y, w, h)\<close> with a fill that maps pixels: the pixels of the canvas
  whose unit square lies in the rectangle are painted. The rectangle has integer
  corners in the program; with an argument that is not finite nothing is painted.
\<close>

definition inside :: "rat \<Rightarrow> rat \<Rightarrow> rat \<Rightarrow> rat \<Rightarrow> nat \<Rightarrow> nat \<Rightarrow> bool" where
  "inside x y w h i j =
     (x \<le> of_nat i \<and> of_nat i + 1 \<le> x + w \<and> y \<le> of_nat j \<and> of_nat j + 1 \<le> y + h)"

definition fillRect ::
  "('p \<Rightarrow> 'p) \<Rightarrow> number \<Rightarrow> number \<Rightarrow> number \<Rightarrow> number \<Rightarrow> 'p image \<Rightarrow> 'p image" where
  "fillRect f x y w h canvas =
     (case (x, y, w, h) of
        (Fin x', Fin y', Fin w', Fin h') \<Rightarrow>
          canvas\<lparr>rows :=
            map (\<lambda>(j, row). map (\<lambda>(i, p). if inside x' y' w' h' i j then f p else p)
                                (zip [0 ..< length row] row))
                (zip [0 ..< length (rows canvas)] (rows canvas))\<rparr>
      | _ \<Rightarrow> canvas)"

text \<open>
  Lines 105 to 109: the side of the square and its corner, from the size of the
  canvas and the options, each operation in binary64. \<open>canvas.width\<close> and
  \<open>canvas.height\<close> are integers (\<open>unsigned long\<close>).
\<close>

definition maskSquare :: "nat \<Rightarrow> nat \<Rightarrow> MaskOptions \<Rightarrow> number \<times> number \<times> number" where
  "maskSquare cw ch maskOptions =
     (let side = Math_max (Fin 1) (Math_round (num_div
                   (num_mul (Math_min (Fin (of_nat cw)) (Fin (of_nat ch))) (sizePercent maskOptions))
                   (Fin 100)));
          centerX = num_div (num_mul (Fin (of_nat cw)) (centerXPercent maskOptions)) (Fin 100);
          centerY = num_div (num_mul (Fin (of_nat ch)) (centerYPercent maskOptions)) (Fin 100);
          x = clamp (Math_round (num_sub centerX (num_div side (Fin 2)))) (Fin 0)
                (num_sub (Fin (of_nat cw)) side);
          y = clamp (Math_round (num_sub centerY (num_div side (Fin 2)))) (Fin 0)
                (num_sub (Fin (of_nat ch)) side)
      in (x, y, side))"

text \<open>
  Lines 93 to 113: the canvas takes the size of the image, the image is drawn onto it
  (the canvas is new and transparent, so it then holds the pixels of the image), and
  with a positive size the square is painted.
\<close>

definition masked :: "'p platform \<Rightarrow> 'p image \<Rightarrow> MaskOptions \<Rightarrow> 'p image" where
  "masked pf img maskOptions =
     (let canvas = \<lparr>width = width img, height = height img, rows = rows img\<rparr>
      in if num_less (Fin 0) (sizePercent maskOptions) then
           (case maskSquare (width canvas) (height canvas) maskOptions of
              (x, y, side) \<Rightarrow>
                fillRect (fill pf (fixedMaskRgba (num_div (opacityPercent maskOptions) (Fin 100))))
                  x y side side canvas)
         else canvas)"

text \<open>
  Lines 120 to 128: the status, from the text and what the decoder found;
  \<open>decoded?.data ?? ''\<close> is the empty string when nothing was found.
\<close>

definition classify :: "string \<Rightarrow> string option \<Rightarrow> DecodeStatus" where
  "classify t decoded =
     (let normalizedText = trim t;
          decodedText = (case decoded of None \<Rightarrow> [] | Some d \<Rightarrow> d)
      in if normalizedText = [] then untested
         else if decodedText = normalizedText then success
         else failed)"

definition applyMaskAndTest ::
  "'p platform \<Rightarrow> string \<Rightarrow> string \<Rightarrow> MaskOptions \<Rightarrow> error + applied" where
  "applyMaskAndTest pf sourceDataUrl t maskOptions =
     (case loadImage pf sourceDataUrl of
        None \<Rightarrow> Inl Failed_to_load_image
      | Some img \<Rightarrow>
          if \<not> getContext pf then Inl Canvas_context_is_unavailable
          else (let canvas = masked pf img maskOptions
                in Inr \<lparr>maskedDataUrl = toDataURL pf canvas,
                        decodeStatus = classify t (jsQR pf canvas)\<rparr>))"

section \<open>The component: \<open>App\<close> (lines 198 to 428)\<close>

subsection \<open>State and view\<close>

text \<open>
  The seven state variables of the component: \<open>text\<close>, \<open>options\<close>,
  \<open>maskOptions\<close>, \<open>qrDataUrl\<close>, \<open>maskedDataUrl\<close>, \<open>decodeStatus\<close> and
  \<open>errorMessage\<close>.
\<close>

record AppState =
  app_text :: string
  app_options :: QrOptions
  app_maskOptions :: MaskOptions
  app_qrDataUrl :: string
  app_maskedDataUrl :: string
  app_decodeStatus :: DecodeStatus
  app_errorMessage :: string

text \<open>Lines 199 to 206: the state at the first rendering.\<close>

definition initialState :: "window option \<Rightarrow> AppState" where
  "initialState w =
     (let initial = parsePermalinkState w
      in \<lparr>app_text = st_text initial, app_options = st_options initial,
          app_maskOptions = st_maskOptions initial, app_qrDataUrl = [],
          app_maskedDataUrl = [], app_decodeStatus = untested, app_errorMessage = []\<rparr>)"

text \<open>
  What the component shows of its state (lines 278 and 413 to 424): the error
  message when there is one, the preview image \<open>maskedDataUrl || qrDataUrl\<close> if
  one of them is set, and the decode message unless the status is \<open>untested\<close>.
\<close>

record View =
  flash :: "string option"
  preview :: "string option"
  decodeText :: "string option"

definition render :: "AppState \<Rightarrow> View" where
  "render s =
     (let currentPreview = (if app_maskedDataUrl s \<noteq> [] then app_maskedDataUrl s else app_qrDataUrl s)
      in \<lparr>flash = (if app_errorMessage s \<noteq> [] then Some (app_errorMessage s) else None),
          preview = (if currentPreview \<noteq> [] then Some currentPreview else None),
          decodeText = (if app_decodeStatus s \<noteq> untested
                        then Some (getDecodeMessage (app_decodeStatus s)) else None)\<rparr>)"

subsection \<open>The three effects\<close>

text \<open>Lines 208 to 215: the address is replaced by the permalink of the state.\<close>

definition permalinkEffect :: "window option \<Rightarrow> AppState \<Rightarrow> string option" where
  "permalinkEffect w s =
     (case w of
        None \<Rightarrow> None
      | Some win \<Rightarrow> Some (createPermalink w (app_text s) (app_options s) (app_maskOptions s)))"

text \<open>
  The call of the encoder (lines 47 to 57): the text and the options that
  \<open>makeQrDataUrl\<close> hands to \<open>QRCode.toDataURL\<close>.
\<close>

record EncoderCall =
  call_text :: string
  call_width :: nat
  call_margin :: nat
  errorCorrectionLevel :: ErrorLevel
  dark :: string
  light :: string

definition makeQrDataUrl :: "string \<Rightarrow> QrOptions \<Rightarrow> EncoderCall" where
  "makeQrDataUrl t opts =
     \<lparr>call_text = t, call_width = 320, call_margin = 2,
      errorCorrectionLevel = errorLevel opts, dark = ''#111111'', light = ''#ffffff''\<rparr>"

text \<open>
  Lines 217 to 230, the synchronous part of the encode effect: the new state and the
  call of the encoder, if one is made.
\<close>

definition encodeEffect :: "AppState \<Rightarrow> AppState \<times> EncoderCall option" where
  "encodeEffect s =
     (let normalizedText = trim (app_text s)
      in if normalizedText = [] then
           (s\<lparr>app_errorMessage := ''Please enter text to generate a QR code.'',
              app_qrDataUrl := [], app_maskedDataUrl := [], app_decodeStatus := untested\<rparr>,
            None)
         else (s\<lparr>app_errorMessage := []\<rparr>, Some (makeQrDataUrl normalizedText (app_options s))))"

text \<open>
  Lines 231 to 245, the two handlers of the encoder's promise; \<open>active\<close> is the
  flag of the run of the effect that made the call.
\<close>

definition encodeThen :: "bool \<Rightarrow> string \<Rightarrow> AppState \<Rightarrow> AppState" where
  "encodeThen active dataUrl s = (if \<not> active then s else s\<lparr>app_qrDataUrl := dataUrl\<rparr>)"

definition encodeCatch :: "bool \<Rightarrow> AppState \<Rightarrow> AppState" where
  "encodeCatch active s =
     (if \<not> active then s
      else s\<lparr>app_errorMessage := ''Failed to generate QR code. Please check your inputs.'',
             app_qrDataUrl := [], app_maskedDataUrl := [], app_decodeStatus := failed\<rparr>)"

text \<open>
  Lines 252 to 258: the mask effect calls \<open>applyMaskAndTest\<close> with the base image,
  the text and the mask options, unless there is no base image.
\<close>

definition maskEffect :: "AppState \<Rightarrow> (string \<times> string \<times> MaskOptions) option" where
  "maskEffect s =
     (if app_qrDataUrl s = [] then None
      else Some (app_qrDataUrl s, app_text s, app_maskOptions s))"

text \<open>Lines 259 to 271: the two handlers of its promise.\<close>

definition maskThen :: "bool \<Rightarrow> applied \<Rightarrow> AppState \<Rightarrow> AppState" where
  "maskThen active result s =
     (if \<not> active then s
      else s\<lparr>app_maskedDataUrl := maskedDataUrl result, app_decodeStatus := decodeStatus result\<rparr>)"

definition maskCatch :: "bool \<Rightarrow> AppState \<Rightarrow> AppState" where
  "maskCatch active s = (if \<not> active then s else s\<lparr>app_decodeStatus := failed\<rparr>)"

subsection \<open>Runs of the effects and their completions\<close>

text \<open>
  React runs an effect after the first rendering and after every rendering in which one
  of its dependencies changed; before it runs the effect again it calls the cleanup
  function the previous run returned. A run of the encode or of the mask effect owns
  a flag \<open>active\<close> (lines 227 and 257), which its cleanup function clears (lines 247
  to 249 and 273 to 275) and which the handlers of its promise read. Runs are numbered
  in the order in which they start. The configuration of the running component holds
  the state, the flags of all runs, the run whose cleanup function React holds, and the
  calls made so far; the window is there for the permalink effect.
\<close>

record Config =
  app :: AppState
  win :: "window option"
  enc_active :: "nat \<Rightarrow> bool"
  enc_current :: "nat option"
  enc_started :: nat
  enc_calls :: "(nat \<times> EncoderCall) list"
  mask_active :: "nat \<Rightarrow> bool"
  mask_current :: "nat option"
  mask_started :: nat
  mask_calls :: "(nat \<times> string \<times> string \<times> MaskOptions) list"

text \<open>
  \<open>history.replaceState(null, '', url)\<close> for the two forms of address
  \<open>createPermalink\<close> returns: a query, or a path.
\<close>

definition replaceState :: "string \<Rightarrow> window \<Rightarrow> window" where
  "replaceState url w =
     (case url of
        [] \<Rightarrow> w
      | c # r \<Rightarrow>
          if c = CHR ''?'' then w\<lparr>search := (if r = [] then [] else url)\<rparr>
          else w\<lparr>search := [], pathname := url\<rparr>)"

definition runPermalinkEffect :: "Config \<Rightarrow> Config" where
  "runPermalinkEffect cfg =
     (case permalinkEffect (win cfg) (app cfg) of
        None \<Rightarrow> cfg
      | Some nextPermalink \<Rightarrow> cfg\<lparr>win := map_option (replaceState nextPermalink) (win cfg)\<rparr>)"

definition cleanupEncode :: "Config \<Rightarrow> Config" where
  "cleanupEncode cfg =
     (case enc_current cfg of
        None \<Rightarrow> cfg
      | Some r \<Rightarrow> cfg\<lparr>enc_active := (enc_active cfg)(r := False), enc_current := None\<rparr>)"

definition cleanupMask :: "Config \<Rightarrow> Config" where
  "cleanupMask cfg =
     (case mask_current cfg of
        None \<Rightarrow> cfg
      | Some r \<Rightarrow> cfg\<lparr>mask_active := (mask_active cfg)(r := False), mask_current := None\<rparr>)"

text \<open>
  A run of the encode effect: without text it only resets the state and returns no
  cleanup function; otherwise it sets its flag, calls the encoder and returns its
  cleanup function.
\<close>

definition startEncode :: "Config \<Rightarrow> Config" where
  "startEncode cfg =
     (case encodeEffect (app cfg) of
        (s, None) \<Rightarrow> cfg\<lparr>app := s, enc_current := None\<rparr>
      | (s, Some call) \<Rightarrow>
          cfg\<lparr>app := s,
              enc_active := (enc_active cfg)(enc_started cfg := True),
              enc_current := Some (enc_started cfg),
              enc_started := Suc (enc_started cfg),
              enc_calls := enc_calls cfg @ [(enc_started cfg, call)]\<rparr>)"

text \<open>A run of the mask effect, on the state \<open>s\<close> that was rendered.\<close>

definition startMask :: "AppState \<Rightarrow> Config \<Rightarrow> Config" where
  "startMask s cfg =
     (case maskEffect s of
        None \<Rightarrow> cfg\<lparr>mask_current := None\<rparr>
      | Some request \<Rightarrow>
          cfg\<lparr>mask_active := (mask_active cfg)(mask_started cfg := True),
              mask_current := Some (mask_started cfg),
              mask_started := Suc (mask_started cfg),
              mask_calls := mask_calls cfg @ [(mask_started cfg, request)]\<rparr>)"

text \<open>
  The effects of one rendering: the cleanup functions of the effects whose dependencies
  changed, then their new runs, in the order of the source. The mask effect reads the
  state that was rendered, not what the encode effect has just set.
\<close>

definition commit :: "bool \<Rightarrow> bool \<Rightarrow> bool \<Rightarrow> Config \<Rightarrow> Config" where
  "commit linkChanged encChanged maskChanged cfg =
     (let s = app cfg;
          c1 = (if encChanged then cleanupEncode cfg else cfg);
          c2 = (if maskChanged then cleanupMask c1 else c1);
          c3 = (if linkChanged then runPermalinkEffect c2 else c2);
          c4 = (if encChanged then startEncode c3 else c3)
      in if maskChanged then startMask s c4 else c4)"

text \<open>
  A state set by an effect or a handler is rendered in turn. Of the dependencies of
  the effects (\<open>text\<close>, \<open>options\<close>, \<open>maskOptions\<close>, \<open>qrDataUrl\<close>) only
  \<open>qrDataUrl\<close> is ever set by them, and only the mask effect depends on it; the
  mask effect sets no state when it runs, so this second rendering is the last.
\<close>

definition rerender :: "AppState \<Rightarrow> Config \<Rightarrow> Config" where
  "rerender s cfg =
     (if app_qrDataUrl (app cfg) \<noteq> app_qrDataUrl s then commit False False True cfg else cfg)"

definition settle :: "bool \<Rightarrow> bool \<Rightarrow> bool \<Rightarrow> Config \<Rightarrow> Config" where
  "settle linkChanged encChanged maskChanged cfg =
     rerender (app cfg) (commit linkChanged encChanged maskChanged cfg)"

text \<open>
  The events: the edits of the user (lines 292, 306 to 310, 335 to 390 and 402 to
  405) and the completions of the promises, each for the run that made the call. The
  handlers of the options build a new object, so the effects that depend on it run
  again even when its fields are the same; a text equal to the present one changes
  nothing. The model lets the effects run again at every \<open>ResetOptions\<close>.
\<close>

datatype Event =
    SetText string
  | SetOptions QrOptions
  | SetMaskOptions MaskOptions
  | ResetOptions
  | EncodeResolved nat string
  | EncodeRejected nat
  | MaskResolved nat applied
  | MaskRejected nat

fun step :: "Config \<Rightarrow> Event \<Rightarrow> Config" where
  "step cfg (SetText t) =
     (if t = app_text (app cfg) then cfg
      else settle True True True (cfg\<lparr>app := (app cfg)\<lparr>app_text := t\<rparr>\<rparr>))"
| "step cfg (SetOptions opts) =
     settle True True False (cfg\<lparr>app := (app cfg)\<lparr>app_options := opts\<rparr>\<rparr>)"
| "step cfg (SetMaskOptions m) =
     settle True False True (cfg\<lparr>app := (app cfg)\<lparr>app_maskOptions := m\<rparr>\<rparr>)"
| "step cfg ResetOptions =
     settle True True True
       (cfg\<lparr>app := (app cfg)\<lparr>app_options := defaultOptions, app_maskOptions := defaultMaskOptions\<rparr>\<rparr>)"
| "step cfg (EncodeResolved r dataUrl) =
     rerender (app cfg) (cfg\<lparr>app := encodeThen (enc_active cfg r) dataUrl (app cfg)\<rparr>)"
| "step cfg (EncodeRejected r) =
     rerender (app cfg) (cfg\<lparr>app := encodeCatch (enc_active cfg r) (app cfg)\<rparr>)"
| "step cfg (MaskResolved r result) =
     cfg\<lparr>app := maskThen (mask_active cfg r) result (app cfg)\<rparr>"
| "step cfg (MaskRejected r) =
     cfg\<lparr>app := maskCatch (mask_active cfg r) (app cfg)\<rparr>"

text \<open>
  The component after its first rendering, and after a sequence of events. The
  component is mounted once: the development mode of \<open>React.StrictMode\<close>
  (src/src/main.tsx), which runs every effect, its cleanup and the effect again at the
  mount, is not modelled.
\<close>

definition mount :: "window option \<Rightarrow> Config" where
  "mount w =
     settle True True True
       \<lparr>app = initialState w, win = w,
        enc_active = (\<lambda>r. False), enc_current = None, enc_started = 0, enc_calls = [],
        mask_active = (\<lambda>r. False), mask_current = None, mask_started = 0, mask_calls = []\<rparr>"

definition run :: "window option \<Rightarrow> Event list \<Rightarrow> Config" where
  "run w events = foldl step (mount w) events"

subsection \<open>Superseded runs\<close>

text \<open>
  A run of an effect is superseded once the effect has been cleaned up or run again
  after it: the run has started, and React no longer holds its cleanup function.
\<close>

definition superseded_encode :: "Config \<Rightarrow> nat \<Rightarrow> bool" where
  "superseded_encode cfg r = (r < enc_started cfg \<and> enc_current cfg \<noteq> Some r)"

definition superseded_mask :: "Config \<Rightarrow> nat \<Rightarrow> bool" where
  "superseded_mask cfg r = (r < mask_started cfg \<and> mask_current cfg \<noteq> Some r)"

text \<open>
  The invariant of the configurations: a flag is set only for the run whose cleanup
  function React holds.
\<close>

definition flags_current :: "Config \<Rightarrow> bool" where
  "flags_current cfg =
     ((\<forall>r. enc_active cfg r \<longrightarrow> enc_current cfg = Some r)
      \<and> (\<forall>r. mask_active cfg r \<longrightarrow> mask_current cfg = Some r))"

section \<open>Facts about the numbers and strings of the platform\<close>

subsection \<open>Integers below \<open>2 ^ 53\<close> are binary64 values\<close>

declare bit_length.simps [simp del]
declare int_digits.simps [simp del]

lemma bit_length_pos: "0 < n \<Longrightarrow> 0 < bit_length n"
  by (subst bit_length.simps) simp

lemma bit_length_bounds:
  "0 < n \<Longrightarrow> 2 ^ (bit_length n - 1) \<le> n \<and> n < 2 ^ bit_length n"
proof (induction n rule: bit_length.induct)
  case (1 n)
  show ?case
  proof (cases "n = 1")
    case True
    then show ?thesis by (simp add: bit_length.simps)
  next
    case False
    with "1.prems" have h: "0 < n div 2" by simp
    from "1.IH" "1.prems" h
    have ih: "2 ^ (bit_length (n div 2) - 1) \<le> n div 2" "n div 2 < 2 ^ bit_length (n div 2)"
      by simp_all
    have bl: "bit_length n = Suc (bit_length (n div 2))"
      using "1.prems" by (subst bit_length.simps) simp
    obtain m where m: "bit_length (n div 2) = Suc m"
      using bit_length_pos [OF h] by (cases "bit_length (n div 2)") simp_all
    from ih m have "2 ^ m \<le> n div 2" "n div 2 < 2 ^ Suc m" by simp_all
    then have "2 * 2 ^ m \<le> n" "n < 2 * 2 ^ Suc m" by linarith+
    then show ?thesis by (simp add: bl m)
  qed
qed

lemma floor_log2_of_int:
  assumes "0 < k"
  shows "floor_log2 (of_int k) = int (bit_length k) - 1"
proof -
  have one: "bit_length 1 = 1" by (simp add: bit_length.simps)
  from bit_length_bounds [OF assms] have "(2::int) ^ (bit_length k - 1) \<le> k" by simp
  then have le: "(of_int ((2::int) ^ (bit_length k - 1)) :: rat) \<le> of_int k"
    by (simp only: of_int_le_iff)
  have pos: "0 < bit_length k" by (rule bit_length_pos [OF assms])
  then have "nat (int (bit_length k) - 1) = bit_length k - 1" by simp
  with le pos show ?thesis
    by (simp add: floor_log2_def Let_def one pow2_def del: of_int_power)
qed

lemma round_half_even_of_int: "round_half_even (of_int m) = m"
  by (simp add: round_half_even_def Let_def)

lemma pow2_pos: "0 < pow2 e"
  by (simp add: pow2_def)

lemma round_double_exact:
  assumes "x \<noteq> 0"
    and "\<bar>x\<bar> / pow2 (max (floor_log2 \<bar>x\<bar>) (- 1022) - 52) = of_int m"
    and "\<bar>x\<bar> < of_int (2 ^ 1024)"
  shows "round_double x = Fin x"
proof -
  define u where "u = pow2 (max (floor_log2 \<bar>x\<bar>) (- 1022) - 52)"
  have upos: "0 < u" unfolding u_def by (rule pow2_pos)
  from assms(2) have m: "\<bar>x\<bar> / u = of_int m" by (simp only: u_def)
  then have r: "of_int (round_half_even (\<bar>x\<bar> / u)) * u = \<bar>x\<bar>"
    using upos by (simp add: round_half_even_of_int field_simps)
  have "round_double x =
      (let r = of_int (round_half_even (\<bar>x\<bar> / u)) * u
       in if of_int (2 ^ 1024) \<le> r then (if 0 < x then PosInf else NegInf)
          else Fin (if 0 < x then r else - r))"
    using assms(1) by (simp only: round_double_def u_def Let_def if_False)
  also have "\<dots> = Fin (if 0 < x then \<bar>x\<bar> else - \<bar>x\<bar>)"
    using assms(3) by (simp only: r Let_def) simp
  also have "\<dots> = Fin x" by simp
  finally show ?thesis .
qed

lemma round_double_of_int:
  assumes "\<bar>k\<bar> < 2 ^ 53"
  shows "round_double (of_int k) = Fin (of_int k)"
proof (cases "k = 0")
  case True
  then show ?thesis by (simp add: round_double_def)
next
  case False
  define a where "a = \<bar>k\<bar>"
  have a: "0 < a" "a < 2 ^ 53" using False assms by (simp_all add: a_def)
  define b where "b = bit_length a"
  from bit_length_bounds [OF a(1)] have bb: "2 ^ (b - 1) \<le> a" "a < 2 ^ b" by (simp_all add: b_def)
  have bpos: "0 < b" unfolding b_def by (rule bit_length_pos [OF a(1)])
  have lt: "(2::int) ^ (b - 1) < 2 ^ 53" using bb(1) a(2) by linarith
  have "b - 1 < 53"
  proof (rule ccontr)
    assume "\<not> b - 1 < 53"
    then have "53 \<le> b - 1" by simp
    then have "(2::int) ^ 53 \<le> 2 ^ (b - 1)" by (rule power_increasing) simp
    with lt show False by linarith
  qed
  then have b53: "b \<le> 53" by simp
  have fl: "floor_log2 (of_int a) = int b - 1"
    unfolding b_def by (rule floor_log2_of_int [OF a(1)])
  define j where "j = 53 - b"
  have u: "pow2 (max (int b - 1) (- 1022) - 52) = 1 / of_int (2 ^ j)"
    using b53 bpos by (simp add: pow2_def j_def nat_diff_distrib' max_def)
  have abs: "\<bar>of_int k :: rat\<bar> = of_int a" by (simp add: a_def)
  have q: "\<bar>of_int k :: rat\<bar> / pow2 (max (floor_log2 \<bar>of_int k\<bar>) (- 1022) - 52) = of_int (a * 2 ^ j)"
    unfolding abs fl u by simp
  have "(of_int a :: rat) < of_int (2 ^ 53)" using a(2) by (simp only: of_int_less_iff)
  also have "\<dots> \<le> of_int (2 ^ 1024)" by (simp only: of_int_le_iff) simp
  finally have big: "\<bar>of_int k :: rat\<bar> < of_int (2 ^ 1024)" unfolding abs .
  from False have nz: "(of_int k :: rat) \<noteq> 0" by simp
  show ?thesis by (rule round_double_exact [OF nz q big])
qed

lemma round_double_numeral [simp]:
  "numeral n < (2::int) ^ 53 \<Longrightarrow> round_double (numeral n) = Fin (numeral n)"
  using round_double_of_int [of "numeral n"] by simp

subsection \<open>Rounding does not pass an integer below \<open>2 ^ 53\<close>\<close>

lemma round_half_even_le:
  assumes "y \<le> of_int K"
  shows "round_half_even y \<le> K"
proof -
  have f: "\<lfloor>y\<rfloor> \<le> K" using assms by (simp add: floor_le_iff) 
  show ?thesis
  proof (cases "y = of_int K")
    case True
    then show ?thesis by (simp add: round_half_even_def Let_def)
  next
    case False
    with assms have "y < of_int K" by simp
    then have "\<lfloor>y\<rfloor> < K" by (simp add: floor_less_iff)
    then show ?thesis by (simp add: round_half_even_def Let_def)
  qed
qed

lemma round_half_even_nonneg: "0 \<le> y \<Longrightarrow> 0 \<le> round_half_even y"
  by (simp add: round_half_even_def Let_def)

text \<open>Below \<open>2 ^ 53\<close> the spacing of the binary64 values is at most 1.\<close>

lemma floor_log2_le_52:
  assumes "0 < x" and "x < of_int (2 ^ 53)"
  shows "floor_log2 x \<le> 52"
proof -
  obtain a b where q: "quotient_of x = (a, b)" by (cases "quotient_of x")
  have b: "0 < b" using quotient_of_denom_pos [OF q] .
  have x: "x = of_int a / of_int b" using quotient_of_div [OF q] .
  have a: "0 < a" using assms(1) b unfolding x by (simp add: zero_less_divide_iff)
  from assms(2) b have "(of_int a :: rat) < of_int (2 ^ 53) * of_int b"
    unfolding x by (simp add: pos_divide_less_eq)
  then have ab: "a < 2 ^ 53 * b" by (simp only: of_int_mult [symmetric] of_int_less_iff)
  from bit_length_bounds [OF a] have la: "2 ^ (bit_length a - 1) \<le> a" by simp
  from bit_length_bounds [OF b] have ub: "b < 2 ^ bit_length b" by simp
  have "(2::int) ^ 53 * b < 2 ^ 53 * 2 ^ bit_length b" using ub by simp
  with la ab have "(2::int) ^ (bit_length a - 1) < 2 ^ 53 * 2 ^ bit_length b" by linarith
  then have "(2::int) ^ (bit_length a - 1) < 2 ^ (53 + bit_length b)" by (simp add: power_add)
  then have "bit_length a - 1 < 53 + bit_length b" by (simp only: power_strict_increasing_iff) 
  then have d: "int (bit_length a) - int (bit_length b) \<le> 53" by linarith
  show ?thesis
  proof (cases "int (bit_length a) - int (bit_length b) = 53")
    case True
    have "\<not> pow2 53 \<le> x" using assms(2) by (simp add: pow2_def)
    then show ?thesis by (simp add: floor_log2_def q Let_def True)
  next
    case False
    with d have "int (bit_length a) - int (bit_length b) \<le> 52" by simp
    then show ?thesis by (simp add: floor_log2_def q Let_def)
  qed
qed

lemma round_double_le_int:
  assumes "0 \<le> x" and "x \<le> of_int N" and "N < 2 ^ 53"
  shows "\<exists>r. round_double x = Fin r \<and> 0 \<le> r \<and> r \<le> of_int N"
proof (cases "x = 0")
  case True
  with assms show ?thesis by (simp add: round_double_def)
next
  case False
  with assms(1) have pos: "0 < x" by simp
  have "of_int N < (of_int (2 ^ 53) :: rat)" using assms(3) by (simp only: of_int_less_iff)
  with assms(2) have lt: "x < of_int (2 ^ 53)" by simp
  define k where "k = max (floor_log2 x) (- 1022) - 52"
  have k: "k \<le> 0" using floor_log2_le_52 [OF pos lt] by (simp add: k_def)
  define j where "j = nat (- k)"
  define u where "u = pow2 k"
  have upos: "0 < u" unfolding u_def by (rule pow2_pos)
  have u: "u = 1 / of_int (2 ^ j)"
  proof (cases "k = 0")
    case True
    then show ?thesis by (simp add: u_def pow2_def j_def)
  next
    case False
    with k show ?thesis by (simp add: u_def pow2_def j_def)
  qed
  define q where "q = round_half_even (x / u)"
  have "x / u \<le> of_int N / u" using assms(2) upos by (simp add: divide_right_mono)
  also have "of_int N / u = of_int (N * 2 ^ j)" by (simp add: u)
  finally have "q \<le> N * 2 ^ j" unfolding q_def by (rule round_half_even_le)
  then have "(of_int q :: rat) \<le> of_int (N * 2 ^ j)" by (simp only: of_int_le_iff)
  then have "of_int q * u \<le> of_int (N * 2 ^ j) * u" using upos by (simp add: mult_right_mono)
  also have "of_int (N * 2 ^ j) * u = of_int N" by (simp add: u)
  finally have le: "of_int q * u \<le> of_int N" .
  have "0 \<le> x / u" using pos upos by simp
  then have "0 \<le> q" unfolding q_def by (rule round_half_even_nonneg)
  then have ge: "0 \<le> of_int q * u" using upos by simp
  have "(of_int N :: rat) < of_int (2 ^ 53)" using assms(3) by (simp only: of_int_less_iff)
  also have "\<dots> \<le> of_int (2 ^ 1024)" by (simp only: of_int_le_iff) simp
  finally have big: "\<not> of_int (2 ^ 1024) \<le> of_int q * u" using le by simp
  have ax: "\<bar>x\<bar> = x" using pos by simp
  have "round_double x = Fin (of_int q * u)"
    using False pos big by (simp only: round_double_def Let_def ax k_def [symmetric] u_def [symmetric] q_def [symmetric] if_False if_True)
  with le ge show ?thesis by blast
qed


lemma of_char_digit_char: "0 \<le> d \<Longrightarrow> d < 10 \<Longrightarrow> of_char (digit_char d) = 48 + d"
  by (simp add: digit_char_def)

lemma hex_value_digit_char: "0 \<le> d \<Longrightarrow> d < 10 \<Longrightarrow> hex_value (digit_char d) = Some d"
  by (simp add: hex_value_def Let_def of_char_digit_char)

lemma is_digit_digit_char: "0 \<le> d \<Longrightarrow> d < 10 \<Longrightarrow> is_digit (digit_char d)"
  by (simp add: is_digit_def of_char_digit_char)

lemma digits_value_append:
  "digits_value b acc (xs @ ys) =
     (case digits_value b acc xs of None \<Rightarrow> None | Some a \<Rightarrow> digits_value b a ys)"
  by (induction xs arbitrary: acc) (auto split: option.splits)

lemma int_digits_value: "0 \<le> n \<Longrightarrow> digits_value 10 0 (int_digits n) = Some n"
proof (induction n rule: int_digits.induct)
  case (1 n)
  show ?case
  proof (cases "n < 10")
    case True
    with "1.prems" show ?thesis
      by (subst int_digits.simps) (simp add: hex_value_digit_char)
  next
    case False
    with "1.IH" "1.prems" have ih: "digits_value 10 0 (int_digits (n div 10)) = Some (n div 10)"
      by simp
    have d: "hex_value (digit_char (n mod 10)) = Some (n mod 10)"
      by (rule hex_value_digit_char) simp_all
    from False show ?thesis
      by (subst int_digits.simps) (simp add: digits_value_append ih d)
  qed
qed

lemma int_digits_all_digits: "0 \<le> n \<Longrightarrow> list_all is_digit (int_digits n)"
proof (induction n rule: int_digits.induct)
  case (1 n)
  show ?case
  proof (cases "n < 10")
    case True
    with "1.prems" show ?thesis
      by (subst int_digits.simps) (simp add: is_digit_digit_char)
  next
    case False
    with "1.IH" "1.prems" have "list_all is_digit (int_digits (n div 10))" by simp
    moreover have "is_digit (digit_char (n mod 10))" by (rule is_digit_digit_char) simp_all
    ultimately show ?thesis using False
      by (subst int_digits.simps) simp
  qed
qed

lemma int_digits_nonempty: "int_digits n \<noteq> []"
  by (subst int_digits.simps) simp

subsection \<open>Printing an integer and reading it back\<close>

lemma drop_ws_digit: "is_digit a \<Longrightarrow> drop_ws r (a # s) = a # s"
  by (auto simp: is_digit_def ws1_def ws2_def ws3_def Let_def split: list.splits)

lemma trim_digits:
  assumes "list_all is_digit s"
  shows "trim s = s"
proof (cases s)
  case Nil
  then show ?thesis by (simp add: trim_def)
next
  case (Cons a t)
  with assms have "is_digit a" by simp
  then have front: "drop_ws False s = s" unfolding Cons by (rule drop_ws_digit)
  obtain b u where ru: "rev s = b # u" using Cons by (cases "rev s") simp_all
  then have "b \<in> set s" by (metis list.set_intros(1) set_rev)
  with assms have "is_digit b" by (simp add: list_all_iff)
  then have "drop_ws True (rev s) = rev s" unfolding ru by (rule drop_ws_digit)
  with front show ?thesis by (simp add: trim_def)
qed

lemma unsigned_decimal_digits:
  assumes "list_all is_digit s" and "s \<noteq> []" and "digits_value 10 0 s = Some m"
  shows "unsigned_decimal s = Some (of_int m)"
proof -
  from assms(1) have all: "\<forall>c\<in>set s. is_digit c" by (simp add: list_all_iff)
  then have tw: "takeWhile is_digit s = s" and dw: "dropWhile is_digit s = []"
    by simp_all
  show ?thesis
    using assms(2,3) by (simp add: unsigned_decimal_def tw dw exponent_part_def pow10_def)
qed

lemma str_decimal_digits:
  assumes "list_all is_digit s" and "s \<noteq> []" and "digits_value 10 0 s = Some m"
    and "\<bar>m\<bar> < 2 ^ 53"
  shows "str_decimal s = Fin (of_int m)"
proof -
  obtain a t where s: "s = a # t" using assms(2) by (cases s) simp_all
  with assms(1) have a: "is_digit a" by simp
  then have ne: "a \<noteq> CHR ''I''" "a \<noteq> CHR ''+''" "a \<noteq> CHR ''-''"
    by (auto simp: is_digit_def)
  have ud: "unsigned_decimal (a # t) = Some (of_int m)"
    using unsigned_decimal_digits [OF assms(1-3)] by (simp only: s)
  show ?thesis
    using ne by (simp add: str_decimal_def s ud round_double_of_int [OF assms(4)])
qed

lemma StringToNumber_int_digits:
  assumes "0 \<le> n" and "n < 2 ^ 53"
  shows "StringToNumber (int_digits n) = Fin (of_int n)"
proof -
  let ?s = "int_digits n"
  have all: "list_all is_digit ?s" by (rule int_digits_all_digits [OF assms(1)])
  have tr: "trim ?s = ?s" by (rule trim_digits [OF all])
  have m: "\<bar>n\<bar> < 2 ^ 53" using assms by simp
  have sd: "str_decimal ?s = Fin (of_int n)"
    by (rule str_decimal_digits [OF all int_digits_nonempty int_digits_value [OF assms(1)] m])
  obtain z r where zr: "?s = z # r" using int_digits_nonempty [of n] by (cases ?s) simp_all
  show ?thesis
  proof (cases r)
    case Nil
    with zr have "int_digits n = [z]" by simp
    then show ?thesis using sd tr by (simp add: StringToNumber_def Let_def)
  next
    case (Cons p ds)
    with all zr have "is_digit p" by simp
    then have "p \<noteq> CHR ''b''" "p \<noteq> CHR ''B''" "p \<noteq> CHR ''o''" "p \<noteq> CHR ''O''"
      "p \<noteq> CHR ''x''" "p \<noteq> CHR ''X''"
      by (auto simp: is_digit_def)
    moreover have "int_digits n = z # p # ds" using zr Cons by simp
    ultimately show ?thesis using sd tr by (simp add: StringToNumber_def Let_def)
  qed
qed

lemma char_of_48: "char_of (48 :: int) = CHR ''0''"
  by (simp add: char_of_def bit_iff_odd)

lemma int_digits_0: "int_digits 0 = ''0''"
  by (subst int_digits.simps) (simp add: digit_char_def char_of_48)

lemma NumberToString_int:
  assumes "0 \<le> n" and "n < 2 ^ 53"
  shows "NumberToString (Fin (of_int n)) = int_digits n"
proof -
  have m: "\<bar>n\<bar> < 2 ^ 53" using assms by simp
  have lt: "(of_int n :: rat) < of_int (2 ^ 53)" using assms(2) by (simp only: of_int_less_iff)
  show ?thesis
    using assms(1) lt
    by (simp add: round_double_of_int [OF m] positive_to_string_def int_digits_0 del: of_int_power)
qed

lemma Math_round_int: "Math_round (Fin (of_int k)) = Fin (of_int k)"
proof -
  have "\<lfloor>(of_int k :: rat) + 1 / 2\<rfloor> = k" by (simp add: floor_eq_iff)  
  then show ?thesis by simp
qed

lemma clamp_Fin: "clamp (Fin v) (Fin lo) (Fin hi) = Fin (min hi (max lo v))"
  by (simp add: clamp_def Math_min_def Math_max_def min_def max_def)

lemma parseNumber_roundtrip:
  assumes "lo \<le> k" and "k \<le> hi" and "0 \<le> k" and "k < 2 ^ 53"
  shows "parseNumber (Some (NumberToString (Fin (of_int k)))) fb (Fin (of_int lo)) (Fin (of_int hi))
         = Fin (of_int k)"
proof -
  have "Number (Some (NumberToString (Fin (of_int k)))) = Fin (of_int k)"
    by (simp only: NumberToString_int [OF assms(3,4)] Number.simps
        StringToNumber_int_digits [OF assms(3,4)])
  then have "parseNumber (Some (NumberToString (Fin (of_int k)))) fb (Fin (of_int lo)) (Fin (of_int hi))
      = clamp (Fin (of_int k)) (Fin (of_int lo)) (Fin (of_int hi))"
    by (simp only: parseNumber_def Let_def Number_isFinite.simps Math_round_int) simp
  also have "\<dots> = Fin (of_int k)"
    using assms(1,2) by (simp add: clamp_Fin min_def max_def)
  finally show ?thesis .
qed

subsection \<open>Serializing pairs and parsing them back\<close>

lemma of_char_int_bounds: "0 \<le> (of_char c :: int) \<and> (of_char c :: int) < 256"
proof -
  have "(of_char c :: int) = int (of_char c)" by (simp only: of_nat_of_char)
  moreover have "(of_char c :: nat) < 256" by (rule nat_of_char_less_256)
  ultimately show ?thesis by simp
qed

lemma hex_value_hex_char: "0 \<le> d \<Longrightarrow> d < 16 \<Longrightarrow> hex_value (hex_char d) = Some d"
  by (simp add: hex_value_def hex_char_def Let_def)

lemma hex_char_plain:
  assumes "0 \<le> d" and "d < 16"
  shows "hex_char d \<noteq> CHR ''+''" and "hex_char d \<noteq> CHR ''&''" and "hex_char d \<noteq> CHR ''=''"
    and "hex_char d \<noteq> CHR ''%''"
proof -
  have v: "of_char (hex_char d) = (if d < 10 then 48 + d else 55 + d)"
    using assms by (simp add: hex_char_def)
  have "(of_char (hex_char d) :: int) \<noteq> 43" "(of_char (hex_char d) :: int) \<noteq> 38"
    "(of_char (hex_char d) :: int) \<noteq> 61" "(of_char (hex_char d) :: int) \<noteq> 37"
    using assms unfolding v by (simp_all split: if_splits)
  then show "hex_char d \<noteq> CHR ''+''" "hex_char d \<noteq> CHR ''&''" "hex_char d \<noteq> CHR ''=''"
    "hex_char d \<noteq> CHR ''%''"
    by auto
qed

lemma safe_plain:
  assumes "urlencoded_safe c"
  shows "c \<noteq> CHR ''+''" and "c \<noteq> CHR ''&''" and "c \<noteq> CHR ''=''" and "c \<noteq> CHR ''%''"
  using assms by (auto simp: urlencoded_safe_def Let_def)

lemma serialize_byte_no_sep:
  "CHR ''&'' \<notin> set (serialize_byte c) \<and> CHR ''='' \<notin> set (serialize_byte c)"
proof -
  have d: "0 \<le> (of_char c :: int) div 16" "(of_char c :: int) div 16 < 16"
    "0 \<le> (of_char c :: int) mod 16" "(of_char c :: int) mod 16 < 16"
    using of_char_int_bounds [of c] by (presburger+)
  show ?thesis
    using hex_char_plain(2,3) [OF d(1,2)] hex_char_plain(2,3) [OF d(3,4)] safe_plain(2,3) [of c]
    by (auto simp: serialize_byte_def)
qed

lemma serialize_bytes_no_sep:
  "CHR ''&'' \<notin> set (serialize_bytes s) \<and> CHR ''='' \<notin> set (serialize_bytes s)"
  using serialize_byte_no_sep by (induction s) (auto simp: serialize_bytes_def)

lemma decode_serialize_byte:
  "percent_decode (plus_to_space (serialize_byte c @ r)) = c # percent_decode (plus_to_space r)"
proof -
  have d: "0 \<le> (of_char c :: int) div 16" "(of_char c :: int) div 16 < 16"
    "0 \<le> (of_char c :: int) mod 16" "(of_char c :: int) mod 16 < 16"
    using of_char_int_bounds [of c] by (presburger+)
  have cc: "char_of ((of_char c :: int) div 16 * 16 + of_char c mod 16) = c" by simp
  show ?thesis
  proof (cases "c = CHR '' ''")
    case True
    then show ?thesis by (simp add: serialize_byte_def plus_to_space_def)
  next
    case sp: False
    show ?thesis
    proof (cases "urlencoded_safe c")
      case True
      with sp safe_plain(1,4) [OF True] show ?thesis
        by (simp add: serialize_byte_def plus_to_space_def)
    next
      case False
      with sp show ?thesis
        using hex_char_plain(1) [OF d(1,2)] hex_char_plain(1) [OF d(3,4)]
        by (simp add: serialize_byte_def plus_to_space_def hex_value_hex_char [OF d(1,2)]
            hex_value_hex_char [OF d(3,4)] cc)
    qed
  qed
qed

lemma decode_serialize_bytes: "percent_decode (plus_to_space (serialize_bytes s)) = s"
proof (induction s)
  case Nil
  then show ?case by (simp add: serialize_bytes_def plus_to_space_def)
next
  case (Cons c s)
  have "serialize_bytes (c # s) = serialize_byte c @ serialize_bytes s"
    by (simp add: serialize_bytes_def)
  with Cons show ?case by (simp only: decode_serialize_byte)
qed

lemma split_on_no_sep: "d \<notin> set a \<Longrightarrow> split_on d a = [a]"
  by (induction a) auto

lemma split_on_sep: "d \<notin> set a \<Longrightarrow> split_on d (a @ d # r) = a # split_on d r"
  by (induction a) auto

lemma parse_pair_serialized:
  "parse_pair (serialize_bytes n @ ''='' @ serialize_bytes v) = (n, v)"
proof -
  have ns: "\<forall>c\<in>set (serialize_bytes n). c \<noteq> CHR ''=''"
    using serialize_bytes_no_sep [of n] by auto
  have tw: "takeWhile (\<lambda>c. c \<noteq> CHR ''='') (serialize_bytes n @ ''='' @ serialize_bytes v) = serialize_bytes n"
    using ns by (simp add: takeWhile_append2)
  have dw: "dropWhile (\<lambda>c. c \<noteq> CHR ''='') (serialize_bytes n @ ''='' @ serialize_bytes v) = ''='' @ serialize_bytes v"
    using ns by (simp add: dropWhile_append2)
  show ?thesis
    by (simp only: parse_pair_def tw dw Let_def) (simp add: decode_serialize_bytes)
qed

lemma pair_no_amp: "CHR ''&'' \<notin> set (serialize_bytes n @ ''='' @ serialize_bytes v)"
  using serialize_bytes_no_sep [of n] serialize_bytes_no_sep [of v] by simp

lemma urlencoded_roundtrip: "urlencoded_parse (urlencoded_serialize ps) = ps"
proof (induction ps rule: urlencoded_serialize.induct)
  case 1
  show ?case by (simp add: urlencoded_parse_def)
next
  case (2 n v)
  have "split_on (CHR ''&'') (serialize_bytes n @ ''='' @ serialize_bytes v)
      = [serialize_bytes n @ ''='' @ serialize_bytes v]"
    by (rule split_on_no_sep [OF pair_no_amp])
  then show ?case
    using parse_pair_serialized [of n v] by (simp add: urlencoded_parse_def)
next
  case (3 n v p ps)
  let ?a = "serialize_bytes n @ ''='' @ serialize_bytes v"
  have ser: "urlencoded_serialize ((n, v) # p # ps) = ?a @ CHR ''&'' # urlencoded_serialize (p # ps)"
    by simp
  have sp: "split_on (CHR ''&'') (?a @ CHR ''&'' # urlencoded_serialize (p # ps))
      = ?a # split_on (CHR ''&'') (urlencoded_serialize (p # ps))"
    by (rule split_on_sep [OF pair_no_amp])
  have ne: "?a \<noteq> []" by simp
  show ?case
    using "3.IH" parse_pair_serialized [of n v]
    by (simp only: ser sp urlencoded_parse_def list.map filter.simps ne if_True simp_thms)
qed

section \<open>Properties of the permalink codec\<close>

subsection \<open>Encoding, then decoding\<close>

lemma parseErrorLevel_level_string: "parseErrorLevel (Some (level_string l)) fb = l"
  by (cases l) (simp_all add: parseErrorLevel_def errorLevels_def)

lemma createPermalink_query:
  "createPermalink (Some w) t opts m =
     CHR ''?'' # urlencoded_serialize
       [(''t'', t), (''e'', level_string (errorLevel opts)),
        (''ms'', NumberToString (sizePercent m)), (''mx'', NumberToString (centerXPercent m)),
        (''my'', NumberToString (centerYPercent m)), (''mo'', NumberToString (opacityPercent m))]"
  by (simp add: createPermalink_def toString_def Let_def del: NumberToString.simps)

lemma URLSearchParams_createPermalink:
  "URLSearchParams (createPermalink (Some w) t opts m) =
       [(''t'', t), (''e'', level_string (errorLevel opts)),
        (''ms'', NumberToString (sizePercent m)), (''mx'', NumberToString (centerXPercent m)),
        (''my'', NumberToString (centerYPercent m)), (''mo'', NumberToString (opacityPercent m))]"
  by (simp only: createPermalink_query URLSearchParams_def list.case refl if_True urlencoded_roundtrip)

lemma permalink_roundtrip:
  assumes "0 \<le> a" "a \<le> 45" "0 \<le> b" "b \<le> 100" "0 \<le> c" "c \<le> 100" "10 \<le> d" "d \<le> 100"
    and m: "m = \<lparr>sizePercent = Fin (of_int a), centerXPercent = Fin (of_int b),
                 centerYPercent = Fin (of_int c), opacityPercent = Fin (of_int d)\<rparr>"
  shows "parsePermalinkState (Some (w\<lparr>search := createPermalink (Some w) t opts m\<rparr>))
         = \<lparr>st_text = t, st_options = opts, st_maskOptions = m\<rparr>"
proof -
  have ra: "parseNumber (Some (NumberToString (Fin (of_int a)))) fb (Fin 0) (Fin 45) = Fin (of_int a)" for fb
    using parseNumber_roundtrip [of 0 a 45 fb] assms(1,2) by simp
  have rb: "parseNumber (Some (NumberToString (Fin (of_int b)))) fb (Fin 0) (Fin 100) = Fin (of_int b)" for fb
    using parseNumber_roundtrip [of 0 b 100 fb] assms(3,4) by simp
  have rc: "parseNumber (Some (NumberToString (Fin (of_int c)))) fb (Fin 0) (Fin 100) = Fin (of_int c)" for fb
    using parseNumber_roundtrip [of 0 c 100 fb] assms(5,6) by simp
  have rd: "parseNumber (Some (NumberToString (Fin (of_int d)))) fb (Fin 10) (Fin 100) = Fin (of_int d)" for fb
    using parseNumber_roundtrip [of 10 d 100 fb] assms(7,8) by simp
  show ?thesis
    by (simp add: parsePermalinkState_def URLSearchParams_createPermalink get_def Let_def m
        ra rb rc rd parseErrorLevel_level_string del: NumberToString.simps)
qed

lemma parseNumber_cases:
  "parseNumber v fb lo hi =
     (case Number v of Fin x \<Rightarrow> clamp (Fin (of_int \<lfloor>x + 1 / 2\<rfloor>)) lo hi | _ \<Rightarrow> fb)"
  by (cases "Number v") (simp_all add: parseNumber_def)

lemma parseNumber_int_range:
  assumes "lo \<le> fb" and "fb \<le> hi"
  shows "\<exists>k. parseNumber v (Fin (of_int fb)) (Fin (of_int lo)) (Fin (of_int hi)) = Fin (of_int k)
             \<and> lo \<le> k \<and> k \<le> hi"
proof (cases "Number v")
  case (Fin x)
  define r where "r = \<lfloor>x + 1 / 2\<rfloor>"
  have "parseNumber v (Fin (of_int fb)) (Fin (of_int lo)) (Fin (of_int hi))
      = Fin (min (of_int hi) (max (of_int lo) (of_int r)))"
    by (simp add: parseNumber_cases Fin clamp_Fin r_def)
  also have "\<dots> = Fin (of_int (min hi (max lo r)))" by simp
  finally show ?thesis using assms by (intro exI [of _ "min hi (max lo r)"]) auto
qed (use assms in \<open>auto simp: parseNumber_cases\<close>)

lemma int_digits_10: "int_digits 10 = ''10''"
  by (simp add: int_digits.simps digit_char_def char_of_def bit_iff_odd)

lemma int_digits_50: "int_digits 50 = ''50''"
  by (simp add: int_digits.simps digit_char_def char_of_def bit_iff_odd)

lemma int_digits_100: "int_digits 100 = ''100''"
  by (simp add: int_digits.simps digit_char_def char_of_def bit_iff_odd)

lemma NumberToString_10: "NumberToString (Fin 10) = ''10''"
  using NumberToString_int [of 10] by (simp add: int_digits_10 del: NumberToString.simps)

lemma NumberToString_50: "NumberToString (Fin 50) = ''50''"
  using NumberToString_int [of 50] by (simp add: int_digits_50 del: NumberToString.simps)

lemma NumberToString_100: "NumberToString (Fin 100) = ''100''"
  using NumberToString_int [of 100] by (simp add: int_digits_100 del: NumberToString.simps)

lemma serialize_hi: "serialize_bytes ''hi'' = ''hi''" "serialize_bytes ''t'' = ''t''"
  "serialize_bytes ''e'' = ''e''" "serialize_bytes ''ms'' = ''ms''" "serialize_bytes ''mx'' = ''mx''"
  "serialize_bytes ''my'' = ''my''" "serialize_bytes ''mo'' = ''mo''"
  "serialize_bytes ''Q'' = ''Q''" "serialize_bytes ''M'' = ''M''"
  "serialize_bytes ''10'' = ''10''" "serialize_bytes ''50'' = ''50''" "serialize_bytes ''100'' = ''100''"
  "serialize_bytes ''17.5'' = ''17.5''"
  by (simp_all add: serialize_bytes_def serialize_byte_def urlencoded_safe_def)

subsection \<open>Scenario D\<close>

text \<open>
  Claim C8. The query string \<open>?t=hi&e=Q&ms=10&mx=50&my=50&mo=50\<close> decodes to the
  text \<open>hi\<close>, the error level \<open>Q\<close> and the mask options 10, 50, 50, 50, and
  encoding that state gives the same query string again (whatever the address was
  before).
\<close>

theorem scenario_D:
  "parsePermalinkState (Some \<lparr>search = ''?t=hi&e=Q&ms=10&mx=50&my=50&mo=50'', pathname = p\<rparr>)
     = \<lparr>st_text = ''hi'', st_options = \<lparr>errorLevel = Q\<rparr>,
        st_maskOptions = \<lparr>sizePercent = Fin 10, centerXPercent = Fin 50,
                          centerYPercent = Fin 50, opacityPercent = Fin 50\<rparr>\<rparr>
   \<and> createPermalink (Some \<lparr>search = q, pathname = p\<rparr>) ''hi'' \<lparr>errorLevel = Q\<rparr>
        \<lparr>sizePercent = Fin 10, centerXPercent = Fin 50, centerYPercent = Fin 50,
         opacityPercent = Fin 50\<rparr>
     = ''?t=hi&e=Q&ms=10&mx=50&my=50&mo=50''"
proof -
  let ?m = "\<lparr>sizePercent = Fin 10, centerXPercent = Fin 50, centerYPercent = Fin 50,
             opacityPercent = Fin 50\<rparr>"
  have enc: "createPermalink (Some \<lparr>search = s, pathname = p\<rparr>) ''hi'' \<lparr>errorLevel = Q\<rparr> ?m
      = ''?t=hi&e=Q&ms=10&mx=50&my=50&mo=50''" for s
    by (simp add: createPermalink_query NumberToString_10 NumberToString_50 serialize_hi
        del: NumberToString.simps)
  have "parsePermalinkState (Some (\<lparr>search = [], pathname = p\<rparr>
          \<lparr>search := createPermalink (Some \<lparr>search = [], pathname = p\<rparr>) ''hi'' \<lparr>errorLevel = Q\<rparr> ?m\<rparr>))
      = \<lparr>st_text = ''hi'', st_options = \<lparr>errorLevel = Q\<rparr>, st_maskOptions = ?m\<rparr>"
    by (rule permalink_roundtrip [of 10 50 50 50]) simp_all
  then have dec: "parsePermalinkState (Some \<lparr>search = ''?t=hi&e=Q&ms=10&mx=50&my=50&mo=50'', pathname = p\<rparr>)
      = \<lparr>st_text = ''hi'', st_options = \<lparr>errorLevel = Q\<rparr>, st_maskOptions = ?m\<rparr>"
    by (simp only: enc window.update_convs)
  from dec enc show ?thesis by simp
qed

subsection \<open>Parameters that are missing\<close>

text \<open>
  Claim C1 says that a missing or invalid numeric parameter decodes to its default
  (18, 50, 50, 100). \<open>parseNumber\<close> returns the default when \<open>Number(value)\<close> is
  not finite; but \<open>params.get\<close> returns \<open>null\<close> for a missing parameter, and
  \<open>Number(null)\<close> is 0, as is \<open>Number('')\<close>. So a query without the four
  parameters, or with empty ones, decodes to the lower bounds 0, 0, 0 and 10 of the
  ranges, not to the defaults. The text and the error level do fall back as the claim
  says.
\<close>

theorem missing_parameters_decode_to_lower_bounds:
  "parsePermalinkState (Some \<lparr>search = [], pathname = p\<rparr>)
     = \<lparr>st_text = ''https://example.com'', st_options = \<lparr>errorLevel = M\<rparr>,
        st_maskOptions = \<lparr>sizePercent = Fin 0, centerXPercent = Fin 0,
                          centerYPercent = Fin 0, opacityPercent = Fin 10\<rparr>\<rparr>
   \<and> parsePermalinkState (Some \<lparr>search = ''?t=hi&e=Q&ms=&mo='', pathname = p\<rparr>)
     = \<lparr>st_text = ''hi'', st_options = \<lparr>errorLevel = Q\<rparr>,
        st_maskOptions = \<lparr>sizePercent = Fin 0, centerXPercent = Fin 0,
                          centerYPercent = Fin 0, opacityPercent = Fin 10\<rparr>\<rparr>"
  by (simp add: parsePermalinkState_def URLSearchParams_def urlencoded_parse_def parse_pair_def
      plus_to_space_def get_def parseErrorLevel_def errorLevels_def defaultOptions_def
      defaultMaskOptions_def parseNumber_def StringToNumber_def trim_def clamp_def
      Math_min_def Math_max_def Let_def)

subsection \<open>What the decoder makes of any query\<close>

lemma StringToNumber_17_5: "StringToNumber ''17.5'' = Fin (35 / 2)"
  by code_simp

lemma NumberToString_17_5: "NumberToString (Fin (35 / 2)) = ''17.5''"
  by code_simp

lemma parseNumber_17_5: "parseNumber (Some ''17.5'') fb (Fin 0) (Fin 45) = Fin 18"
  by (simp add: parseNumber_def StringToNumber_17_5 clamp_Fin)

text \<open>
  Claim C9. Whatever the query string, the four mask fields of the decoded state are
  integers in their ranges: \<open>sizePercent\<close> in 0 to 45, \<open>centerXPercent\<close> and
  \<open>centerYPercent\<close> in 0 to 100, \<open>opacityPercent\<close> in 10 to 100. A parameter
  whose number is finite is rounded to the nearest integer (a half goes up) and then
  clamped.
\<close>

theorem decoded_mask_fields_are_integers_in_range:
  "(\<exists>a b c d :: int.
      st_maskOptions (parsePermalinkState (Some w)) =
        \<lparr>sizePercent = Fin (of_int a), centerXPercent = Fin (of_int b),
         centerYPercent = Fin (of_int c), opacityPercent = Fin (of_int d)\<rparr>
      \<and> 0 \<le> a \<and> a \<le> 45 \<and> 0 \<le> b \<and> b \<le> 100 \<and> 0 \<le> c \<and> c \<le> 100 \<and> 10 \<le> d \<and> d \<le> 100)
   \<and> (\<forall>v x fb lo hi. Number v = Fin x \<longrightarrow>
         parseNumber v fb (Fin lo) (Fin hi) = Fin (min hi (max lo (of_int \<lfloor>x + 1 / 2\<rfloor>))))"
proof (rule conjI)
  let ?ps = "URLSearchParams (search w)"
  obtain a where a: "parseNumber (get ?ps ''ms'') (Fin (of_int 18)) (Fin (of_int 0)) (Fin (of_int 45))
      = Fin (of_int a)" "0 \<le> a" "a \<le> 45"
    using parseNumber_int_range [of 0 18 45 "get ?ps ''ms''"] by auto
  obtain b where b: "parseNumber (get ?ps ''mx'') (Fin (of_int 50)) (Fin (of_int 0)) (Fin (of_int 100))
      = Fin (of_int b)" "0 \<le> b" "b \<le> 100"
    using parseNumber_int_range [of 0 50 100 "get ?ps ''mx''"] by auto
  obtain c where c: "parseNumber (get ?ps ''my'') (Fin (of_int 50)) (Fin (of_int 0)) (Fin (of_int 100))
      = Fin (of_int c)" "0 \<le> c" "c \<le> 100"
    using parseNumber_int_range [of 0 50 100 "get ?ps ''my''"] by auto
  obtain d where d: "parseNumber (get ?ps ''mo'') (Fin (of_int 100)) (Fin (of_int 10)) (Fin (of_int 100))
      = Fin (of_int d)" "10 \<le> d" "d \<le> 100"
    using parseNumber_int_range [of 10 100 100 "get ?ps ''mo''"] by auto
  have "st_maskOptions (parsePermalinkState (Some w)) =
        \<lparr>sizePercent = Fin (of_int a), centerXPercent = Fin (of_int b),
         centerYPercent = Fin (of_int c), opacityPercent = Fin (of_int d)\<rparr>"
    using a(1) b(1) c(1) d(1)
    by (simp add: parsePermalinkState_def Let_def defaultMaskOptions_def)
  with a(2,3) b(2,3) c(2,3) d(2,3)
  show "\<exists>a b c d :: int.
      st_maskOptions (parsePermalinkState (Some w)) =
        \<lparr>sizePercent = Fin (of_int a), centerXPercent = Fin (of_int b),
         centerYPercent = Fin (of_int c), opacityPercent = Fin (of_int d)\<rparr>
      \<and> 0 \<le> a \<and> a \<le> 45 \<and> 0 \<le> b \<and> b \<le> 100 \<and> 0 \<le> c \<and> c \<le> 100 \<and> 10 \<le> d \<and> d \<le> 100"
    by blast
next
  show "\<forall>v x fb lo hi. Number v = Fin x \<longrightarrow>
         parseNumber v fb (Fin lo) (Fin hi) = Fin (min hi (max lo (of_int \<lfloor>x + 1 / 2\<rfloor>)))"
    by (simp add: parseNumber_cases clamp_Fin)
qed

theorem decoded_mask_fields_are_integers_in_range_witness:
  "Number (Some ''17.5'') = Fin (35 / 2)
   \<and> parseNumber (Some ''17.5'') (Fin 18) (Fin 0) (Fin 45) = Fin 18
   \<and> (\<exists>a b c d :: int.
        st_maskOptions (parsePermalinkState
            (Some \<lparr>search = ''?ms=17.5&mx=-3&my=1e3&mo=abc'', pathname = ''/''\<rparr>)) =
          \<lparr>sizePercent = Fin (of_int a), centerXPercent = Fin (of_int b),
           centerYPercent = Fin (of_int c), opacityPercent = Fin (of_int d)\<rparr>
        \<and> 0 \<le> a \<and> a \<le> 45 \<and> 0 \<le> b \<and> b \<le> 100 \<and> 0 \<le> c \<and> c \<le> 100 \<and> 10 \<le> d \<and> d \<le> 100)"
proof -
  note t = decoded_mask_fields_are_integers_in_range
    [of "\<lparr>search = ''?ms=17.5&mx=-3&my=1e3&mo=abc'', pathname = ''/''\<rparr>"]
  have n: "Number (Some ''17.5'') = Fin (35 / 2)" by (simp add: StringToNumber_17_5)
  from t have "Number (Some ''17.5'') = Fin (35 / 2) \<longrightarrow>
      parseNumber (Some ''17.5'') (Fin 18) (Fin 0) (Fin 45)
        = Fin (min 45 (max 0 (of_int \<lfloor>(35 / 2 :: rat) + 1 / 2\<rfloor>)))"
    by blast
  with n have "parseNumber (Some ''17.5'') (Fin 18) (Fin 0) (Fin 45) = Fin 18" by simp
  with n t show ?thesis by blast
qed

subsection \<open>The round trip of a state\<close>

text \<open>
  Claim C2. For every state in range, decoding the permalink of the state gives the
  state back: for every text, every error level and all mask fields in their ranges,
  \<open>sizePercent\<close> in 0 to 45, \<open>centerXPercent\<close> and \<open>centerYPercent\<close> in 0 to 100,
  \<open>opacityPercent\<close> in 10 to 100, whatever the address was before. The mask fields
  of a state are whole numbers of percent, written in the permalink as decimal integers:
  the defaults are whole, the decoder rounds and the sliders move in whole steps. A text
  is given by its UTF-8 bytes.
\<close>

theorem permalink_roundtrip_of_integer_states:
  assumes "0 \<le> a" and "a \<le> 45" and "0 \<le> b" and "b \<le> 100"
    and "0 \<le> c" and "c \<le> 100" and "10 \<le> d" and "d \<le> 100"
  shows "parsePermalinkState
           (Some (w\<lparr>search := createPermalink (Some w) t opts
              \<lparr>sizePercent = Fin (of_int a), centerXPercent = Fin (of_int b),
               centerYPercent = Fin (of_int c), opacityPercent = Fin (of_int d)\<rparr>\<rparr>))
         = \<lparr>st_text = t, st_options = opts,
            st_maskOptions =
              \<lparr>sizePercent = Fin (of_int a), centerXPercent = Fin (of_int b),
               centerYPercent = Fin (of_int c), opacityPercent = Fin (of_int d)\<rparr>\<rparr>"
  using assms by (intro permalink_roundtrip) simp_all

theorem permalink_roundtrip_of_integer_states_witness:
  "parsePermalinkState
     (Some (\<lparr>search = ''?old'', pathname = ''/''\<rparr>
        \<lparr>search := createPermalink (Some \<lparr>search = ''?old'', pathname = ''/''\<rparr>)
           '' a&b=c '' \<lparr>errorLevel = H\<rparr>
           \<lparr>sizePercent = Fin 18, centerXPercent = Fin 0, centerYPercent = Fin 100,
            opacityPercent = Fin 10\<rparr>\<rparr>))
   = \<lparr>st_text = '' a&b=c '', st_options = \<lparr>errorLevel = H\<rparr>,
      st_maskOptions =
        \<lparr>sizePercent = Fin 18, centerXPercent = Fin 0, centerYPercent = Fin 100,
         opacityPercent = Fin 10\<rparr>\<rparr>"
  using permalink_roundtrip_of_integer_states
    [of 18 0 100 10 "\<lparr>search = ''?old'', pathname = ''/''\<rparr>" "'' a&b=c ''" "\<lparr>errorLevel = H\<rparr>"]
  by simp

section \<open>Properties of masking and testing\<close>

subsection \<open>The classifier\<close>

lemma classify_eq:
  "classify t decoded =
     (if trim t = [] then untested else if decoded = Some (trim t) then success else failed)"
  by (cases decoded) (auto simp: classify_def Let_def)

text \<open>
  Claim C4. The status is \<open>untested\<close> when the trimmed text is empty; otherwise it
  is \<open>success\<close> when a code was decoded and its text equals the trimmed text
  character by character, and \<open>failed\<close> in every other case, among them that no
  code was decoded. This is the status \<open>applyMaskAndTest\<close> returns, for what the
  decoder finds in the masked image.
\<close>

theorem classifier_by_cases:
  "classify t decoded =
     (if trim t = [] then untested else if decoded = Some (trim t) then success else failed)
   \<and> classify t None = (if trim t = [] then untested else failed)
   \<and> map_sum id decodeStatus (applyMaskAndTest pf sourceDataUrl t maskOptions) =
       (case loadImage pf sourceDataUrl of
          None \<Rightarrow> Inl Failed_to_load_image
        | Some img \<Rightarrow>
            if \<not> getContext pf then Inl Canvas_context_is_unavailable
            else Inr (if trim t = [] then untested
                      else if jsQR pf (masked pf img maskOptions) = Some (trim t) then success
                      else failed))"
  by (simp add: classify_eq applyMaskAndTest_def Let_def split: option.splits)

subsection \<open>The square\<close>

lemma Math_max_Fin: "Math_max (Fin a) (Fin b) = Fin (max a b)"
  by (simp add: Math_max_def max_def)

lemma Math_min_Fin: "Math_min (Fin a) (Fin b) = Fin (min a b)"
  by (simp add: Math_min_def min_def)

lemma round_double_not_NaN: "round_double x \<noteq> NaN"
  by (simp add: round_double_def Let_def)

lemma num_mul_Fin: "num_mul (Fin a) (Fin b) = round_double (a * b)"
  by (simp add: num_mul_def)

lemma num_sub_Fin: "num_sub (Fin a) (Fin b) = round_double (a - b)"
  by (simp add: num_sub_def)

lemma num_div_Fin: "b \<noteq> 0 \<Longrightarrow> num_div (Fin a) (Fin b) = round_double (a / b)"
  by (simp add: num_div_def)

lemma num_div_not_NaN: "v \<noteq> NaN \<Longrightarrow> b \<noteq> 0 \<Longrightarrow> num_div v (Fin b) \<noteq> NaN"
  by (cases v) (simp_all add: num_div_def round_double_not_NaN)

lemma num_sub_not_NaN: "v \<noteq> NaN \<Longrightarrow> num_sub v (Fin b) \<noteq> NaN"
  by (cases v) (simp_all add: num_sub_def round_double_not_NaN)

text \<open>A rounded number that is not NaN, clamped between 0 and an integer.\<close>

lemma clamp_round:
  assumes "v \<noteq> NaN" and "0 \<le> hi"
  shows "\<exists>x :: int. clamp (Math_round v) (Fin 0) (Fin (of_int hi)) = Fin (of_int x)
           \<and> 0 \<le> x \<and> x \<le> hi"
proof (cases v)
  case NaN
  with assms(1) show ?thesis by simp
next
  case PosInf
  then have "clamp (Math_round v) (Fin 0) (Fin (of_int hi)) = Fin (of_int hi)"
    by (simp add: clamp_def Math_max_def Math_min_def)
  with assms(2) show ?thesis by blast
next
  case NegInf
  then have "clamp (Math_round v) (Fin 0) (Fin (of_int hi)) = Fin (of_int 0)"
    using assms(2) by (simp add: clamp_def Math_max_def Math_min_def)
  with assms(2) show ?thesis by blast
next
  case (Fin r)
  define k where "k = \<lfloor>r + 1 / 2\<rfloor>"
  have "clamp (Math_round v) (Fin 0) (Fin (of_int hi)) = Fin (min (of_int hi) (max 0 (of_int k)))"
    by (simp add: Fin k_def clamp_def Math_max_Fin Math_min_Fin)
  also have "min (of_int hi) (max 0 (of_int k)) = (of_int (min hi (max 0 k)) :: rat)"
    by (simp add: min_def max_def)
  finally have "clamp (Math_round v) (Fin 0) (Fin (of_int hi)) = Fin (of_int (min hi (max 0 k)))" .
  moreover have "0 \<le> min hi (max 0 k)" "min hi (max 0 k) \<le> hi" using assms(2) by simp_all
  ultimately show ?thesis by blast
qed

text \<open>
  The side: with a size of at most 100 percent the product and the quotient stay at or
  below \<open>100 * n\<close> and \<open>n\<close>, which are binary64 values, and so does what they are
  rounded to.
\<close>

lemma side_in_canvas:
  assumes "0 < n" and "n < 2 ^ 32" and "0 < p" and "p \<le> 100"
  shows "\<exists>side :: int.
           Math_max (Fin 1) (Math_round (num_div (num_mul (Fin (of_int n)) (Fin p)) (Fin 100)))
             = Fin (of_int side)
         \<and> 1 \<le> side \<and> side \<le> n"
proof -
  have "0 \<le> of_int n * p" using assms(1,3) by simp
  moreover have "of_int n * p \<le> of_int (100 * n)" using assms(1,4) by simp
  moreover have "100 * n < 2 ^ 53" using assms(2) by simp
  ultimately obtain r1 where r1: "round_double (of_int n * p) = Fin r1" "0 \<le> r1" "r1 \<le> of_int (100 * n)"
    using round_double_le_int by blast
  have "0 \<le> r1 / 100" using r1(2) by simp
  moreover have "r1 / 100 \<le> of_int n" using r1(3) by simp
  moreover have "n < 2 ^ 53" using assms(2) by simp
  ultimately obtain r2 where r2: "round_double (r1 / 100) = Fin r2" "0 \<le> r2" "r2 \<le> of_int n"
    using round_double_le_int by blast
  define k where "k = \<lfloor>r2 + 1 / 2\<rfloor>"
  have "r2 + 1 / 2 < of_int (n + 1)" using r2(3) by simp
  then have "k < n + 1" unfolding k_def by (simp only: floor_less_iff)
  then have kn: "k \<le> n" by simp
  have "Math_max (Fin 1) (Math_round (num_div (num_mul (Fin (of_int n)) (Fin p)) (Fin 100)))
          = Fin (max 1 (of_int k))"
    by (simp add: num_mul_Fin r1(1) num_div_Fin r2(1) k_def Math_max_Fin)
  also have "max 1 (of_int k) = (of_int (max 1 k) :: rat)" by (simp add: max_def)
  finally have "Math_max (Fin 1) (Math_round (num_div (num_mul (Fin (of_int n)) (Fin p)) (Fin 100)))
          = Fin (of_int (max 1 k))" .
  moreover have "1 \<le> max 1 k" "max 1 k \<le> n" using kn assms(1) by simp_all
  ultimately show ?thesis by blast
qed

text \<open>One coordinate of the corner.\<close>

lemma corner_in_canvas:
  assumes "1 \<le> side" and "side \<le> n" and "n < 2 ^ 32"
  shows "\<exists>x :: int.
           clamp (Math_round (num_sub (num_div (num_mul (Fin (of_int n)) (Fin c)) (Fin 100))
                                (num_div (Fin (of_int side)) (Fin 2))))
             (Fin 0) (num_sub (Fin (of_int n)) (Fin (of_int side))) = Fin (of_int x)
         \<and> 0 \<le> x \<and> x + side \<le> n"
proof -
  have "\<bar>n - side\<bar> < 2 ^ 53" using assms by simp
  from round_double_of_int [OF this]
  have hi: "num_sub (Fin (of_int n)) (Fin (of_int side)) = Fin (of_int (n - side))"
    by (simp add: num_sub_Fin)
  have "0 \<le> (of_int side :: rat) / 2" using assms(1) by simp
  moreover have "(of_int side :: rat) / 2 \<le> of_int side" using assms(1) by simp
  moreover have "side < 2 ^ 53" using assms(2,3) by simp
  ultimately obtain h where h: "round_double (of_int side / 2) = Fin h"
    using round_double_le_int by blast
  have half: "num_div (Fin (of_int side)) (Fin 2) = Fin h"
    by (simp add: num_div_Fin h)
  have "num_mul (Fin (of_int n)) (Fin c) \<noteq> NaN"
    by (simp add: num_mul_Fin round_double_not_NaN)
  then have "num_div (num_mul (Fin (of_int n)) (Fin c)) (Fin 100) \<noteq> NaN"
    by (rule num_div_not_NaN) simp
  then have v: "num_sub (num_div (num_mul (Fin (of_int n)) (Fin c)) (Fin 100)) (Fin h) \<noteq> NaN"
    by (rule num_sub_not_NaN)
  have "0 \<le> n - side" using assms(2) by simp
  from clamp_round [OF v this] obtain x :: int where
    "clamp (Math_round (num_sub (num_div (num_mul (Fin (of_int n)) (Fin c)) (Fin 100)) (Fin h)))
       (Fin 0) (Fin (of_int (n - side))) = Fin (of_int x)" "0 \<le> x" "x \<le> n - side"
    by blast
  then show ?thesis unfolding hi half by (intro exI [of _ x]) simp
qed

text \<open>
  Claim C5. With a positive \<open>sizePercent\<close> (of at most 100; the mask options have at
  most 45) and an image of positive width and height, the side of the square is
  \<open>Math.min(width, height) * sizePercent / 100\<close> rounded to an integer, and at least
  1; its corner is the rounded position of its centre less half the side, clamped
  between 0 and the width (the height) less the side; and the square lies in the image:
  \<open>0 \<le> x\<close>, \<open>0 \<le> y\<close>, \<open>x + side \<le> width\<close> and \<open>y + side \<le> height\<close>. This is
  the square that is painted. The products, quotients and differences are those of
  binary64. The width and the height of a canvas are below \<open>2 ^ 32\<close>
  (\<open>unsigned long\<close>).
\<close>

theorem mask_square_lies_in_the_image:
  assumes "0 < width img" and "0 < height img"
    and "width img < 2 ^ 32" and "height img < 2 ^ 32"
    and "sizePercent m = Fin p" and "0 < p" and "p \<le> 100"
    and "centerXPercent m = Fin cx" and "centerYPercent m = Fin cy"
  shows "\<exists>x y side :: int.
           maskSquare (width img) (height img) m = (Fin (of_int x), Fin (of_int y), Fin (of_int side))
         \<and> Fin (of_int side) =
             Math_max (Fin 1) (Math_round (num_div
               (num_mul (Fin (of_nat (min (width img) (height img)))) (sizePercent m)) (Fin 100)))
         \<and> Fin (of_int x) =
             clamp (Math_round (num_sub
                 (num_div (num_mul (Fin (of_nat (width img))) (centerXPercent m)) (Fin 100))
                 (num_div (Fin (of_int side)) (Fin 2))))
               (Fin 0) (Fin (of_int (int (width img) - side)))
         \<and> Fin (of_int y) =
             clamp (Math_round (num_sub
                 (num_div (num_mul (Fin (of_nat (height img))) (centerYPercent m)) (Fin 100))
                 (num_div (Fin (of_int side)) (Fin 2))))
               (Fin 0) (Fin (of_int (int (height img) - side)))
         \<and> 1 \<le> side \<and> 0 \<le> x \<and> 0 \<le> y
         \<and> x + side \<le> int (width img) \<and> y + side \<le> int (height img)
         \<and> masked pf img m =
             fillRect (fill pf (fixedMaskRgba (num_div (opacityPercent m) (Fin 100))))
               (Fin (of_int x)) (Fin (of_int y)) (Fin (of_int side)) (Fin (of_int side))
               \<lparr>width = width img, height = height img, rows = rows img\<rparr>"
proof -
  define cw where "cw = width img"
  define ch where "ch = height img"
  define n where "n = min (int cw) (int ch)"
  have n: "0 < n" "n < 2 ^ 32" "n \<le> int cw" "n \<le> int ch"
    using assms(1-4) by (simp_all add: n_def cw_def ch_def)
  have mn: "Math_min (Fin (of_int (int cw))) (Fin (of_int (int ch))) = Fin (of_int n)"
    by (simp add: Math_min_Fin n_def min_def)
  have mn': "Fin (of_nat (min cw ch)) = Fin (of_int n)"
    by (simp add: n_def min_def)
  from side_in_canvas [OF n(1,2) assms(6,7)] obtain side :: int where
    side: "Math_max (Fin 1) (Math_round (num_div (num_mul (Fin (of_int n)) (Fin p)) (Fin 100)))
             = Fin (of_int side)" "1 \<le> side" "side \<le> n"
    by blast
  have w: "side \<le> int cw" "int cw < 2 ^ 32" using side(3) n(3) assms(3) by (simp_all add: cw_def)
  have h: "side \<le> int ch" "int ch < 2 ^ 32" using side(3) n(4) assms(4) by (simp_all add: ch_def)
  from corner_in_canvas [OF side(2) w, of cx] obtain x :: int where
    x: "clamp (Math_round (num_sub (num_div (num_mul (Fin (of_int (int cw))) (Fin cx)) (Fin 100))
                                (num_div (Fin (of_int side)) (Fin 2))))
             (Fin 0) (num_sub (Fin (of_int (int cw))) (Fin (of_int side))) = Fin (of_int x)"
       "0 \<le> x" "x + side \<le> int cw"
    by blast
  from corner_in_canvas [OF side(2) h, of cy] obtain y :: int where
    y: "clamp (Math_round (num_sub (num_div (num_mul (Fin (of_int (int ch))) (Fin cy)) (Fin 100))
                                (num_div (Fin (of_int side)) (Fin 2))))
             (Fin 0) (num_sub (Fin (of_int (int ch))) (Fin (of_int side))) = Fin (of_int y)"
       "0 \<le> y" "y + side \<le> int ch"
    by blast
  have sw: "num_sub (Fin (of_int (int cw))) (Fin (of_int side)) = Fin (of_int (int cw - side))"
    using round_double_of_int [of "int cw - side"] w side(2) by (simp add: num_sub_Fin)
  have sh: "num_sub (Fin (of_int (int ch))) (Fin (of_int side)) = Fin (of_int (int ch - side))"
    using round_double_of_int [of "int ch - side"] h side(2) by (simp add: num_sub_Fin)
  have nat: "(of_nat cw :: rat) = of_int (int cw)" "(of_nat ch :: rat) = of_int (int ch)"
    by simp_all
  have sq: "maskSquare cw ch m = (Fin (of_int x), Fin (of_int y), Fin (of_int side))"
    by (simp only: maskSquare_def Let_def assms(5,8,9) nat mn side(1) x(1) y(1))
  have s2: "Fin (of_int side) =
             Math_max (Fin 1) (Math_round (num_div
               (num_mul (Fin (of_nat (min cw ch))) (sizePercent m)) (Fin 100)))"
    by (simp only: mn' assms(5) side(1))
  have x2: "Fin (of_int x) =
             clamp (Math_round (num_sub
                 (num_div (num_mul (Fin (of_nat cw)) (centerXPercent m)) (Fin 100))
                 (num_div (Fin (of_int side)) (Fin 2))))
               (Fin 0) (Fin (of_int (int cw - side)))"
    using x(1) by (simp only: nat assms(8) sw)
  have y2: "Fin (of_int y) =
             clamp (Math_round (num_sub
                 (num_div (num_mul (Fin (of_nat ch)) (centerYPercent m)) (Fin 100))
                 (num_div (Fin (of_int side)) (Fin 2))))
               (Fin 0) (Fin (of_int (int ch - side)))"
    using y(1) by (simp only: nat assms(9) sh)
  have pos: "num_less (Fin 0) (sizePercent m)" using assms(5,6) by simp
  have msk: "masked pf img m =
             fillRect (fill pf (fixedMaskRgba (num_div (opacityPercent m) (Fin 100))))
               (Fin (of_int x)) (Fin (of_int y)) (Fin (of_int side)) (Fin (of_int side))
               \<lparr>width = cw, height = ch, rows = rows img\<rparr>"
    using pos
    by (simp only: masked_def Let_def image.simps if_True sq [unfolded cw_def ch_def] prod.case
        cw_def ch_def)
  from sq s2 x2 y2 side(2) x(2,3) y(2,3) msk show ?thesis unfolding cw_def ch_def by blast
qed

text \<open>
  On an image of 6 by 6 pixels with \<open>sizePercent = 41.666666666666664\<close> the product
  \<open>6 * sizePercent\<close> is 250 in binary64, and the side is 3.
\<close>

theorem mask_square_lies_in_the_image_witness:
  "maskSquare 6 6 \<lparr>sizePercent = Fin (5864062014805333 / 140737488355328),
       centerXPercent = Fin 50, centerYPercent = Fin 50, opacityPercent = Fin 100\<rparr>
     = (Fin 2, Fin 2, Fin 3)
   \<and> (\<exists>x y side :: int.
        maskSquare 6 6 \<lparr>sizePercent = Fin (5864062014805333 / 140737488355328),
            centerXPercent = Fin 50, centerYPercent = Fin 50, opacityPercent = Fin 100\<rparr>
          = (Fin (of_int x), Fin (of_int y), Fin (of_int side))
        \<and> 1 \<le> side \<and> 0 \<le> x \<and> 0 \<le> y \<and> x + side \<le> 6 \<and> y + side \<le> 6)"
proof -
  let ?img = "\<lparr>width = 6, height = 6, rows = [] :: unit list list\<rparr>"
  let ?m = "\<lparr>sizePercent = Fin (5864062014805333 / 140737488355328),
       centerXPercent = Fin 50, centerYPercent = Fin 50, opacityPercent = Fin 100\<rparr>"
  have v: "maskSquare 6 6 ?m = (Fin 2, Fin 2, Fin 3)"
    by code_simp
  have h: "0 < width ?img" "0 < height ?img" "width ?img < 2 ^ 32" "height ?img < 2 ^ 32"
    "sizePercent ?m = Fin (5864062014805333 / 140737488355328)"
    "(0::rat) < 5864062014805333 / 140737488355328"
    "(5864062014805333 / 140737488355328 :: rat) \<le> 100"
    "centerXPercent ?m = Fin 50" "centerYPercent ?m = Fin 50"
    by simp_all
  from mask_square_lies_in_the_image [OF h, of undefined]
  obtain x y side :: int where
    a: "maskSquare (width ?img) (height ?img) ?m
          = (Fin (of_int x), Fin (of_int y), Fin (of_int side))"
      "1 \<le> side" "0 \<le> x" "0 \<le> y" "x + side \<le> int (width ?img)" "y + side \<le> int (height ?img)"
    by blast
  from a(1) have "maskSquare 6 6 ?m = (Fin (of_int x), Fin (of_int y), Fin (of_int side))" by simp
  moreover from a(5,6) have "x + side \<le> 6" "y + side \<le> 6" by simp_all
  ultimately show ?thesis using v a(2,3,4) by blast
qed

subsection \<open>No mask\<close>

text \<open>
  Claim C6. With \<open>sizePercent = 0\<close> nothing is painted: the canvas holds the pixels
  of the base image, whatever the other mask options, and the masked image that
  \<open>applyMaskAndTest\<close> exports is the export of those pixels.
\<close>

theorem size_zero_paints_nothing:
  "masked pf img (m\<lparr>sizePercent := Fin 0\<rparr>) = img
   \<and> map_sum id maskedDataUrl (applyMaskAndTest pf sourceDataUrl t (m\<lparr>sizePercent := Fin 0\<rparr>)) =
       (case loadImage pf sourceDataUrl of
          None \<Rightarrow> Inl Failed_to_load_image
        | Some img \<Rightarrow>
            if \<not> getContext pf then Inl Canvas_context_is_unavailable
            else Inr (toDataURL pf img))"
proof -
  have "masked pf i (m\<lparr>sizePercent := Fin 0\<rparr>) = i" for i :: "'a image"
    by (simp add: masked_def)
  then show ?thesis
    by (simp add: applyMaskAndTest_def Let_def split: option.splits)
qed

section \<open>Properties of the running component\<close>

subsection \<open>Only the present run of an effect has its flag set\<close>

lemma flags_current_app [simp]: "flags_current (cfg\<lparr>app := s\<rparr>) = flags_current cfg"
  by (simp add: flags_current_def)

lemma flags_current_commit:
  "flags_current cfg \<Longrightarrow> flags_current (commit l e m cfg)"
  by (auto simp: flags_current_def commit_def Let_def cleanupEncode_def cleanupMask_def
      runPermalinkEffect_def startEncode_def startMask_def
      split: option.splits prod.splits if_splits)

lemma flags_current_rerender:
  "flags_current cfg \<Longrightarrow> flags_current (rerender s cfg)"
  by (simp add: rerender_def flags_current_commit)

lemma flags_current_settle:
  "flags_current cfg \<Longrightarrow> flags_current (settle l e m cfg)"
  by (simp add: settle_def flags_current_rerender flags_current_commit)

lemma flags_current_step:
  "flags_current cfg \<Longrightarrow> flags_current (step cfg ev)"
  by (cases ev) (simp_all add: flags_current_settle flags_current_rerender)

lemma flags_current_mount: "flags_current (mount w)"
  unfolding mount_def by (rule flags_current_settle) (simp add: flags_current_def)

lemma flags_current_foldl:
  "flags_current cfg \<Longrightarrow> flags_current (foldl step cfg events)"
  by (induction events arbitrary: cfg) (simp_all add: flags_current_step)

lemma flags_current_run: "flags_current (run w events)"
  unfolding run_def by (rule flags_current_foldl [OF flags_current_mount])

subsection \<open>A superseded run stays superseded, and its completion changes nothing\<close>

lemma superseded_encode_app [simp]:
  "superseded_encode (cfg\<lparr>app := s\<rparr>) r = superseded_encode cfg r"
  by (simp add: superseded_encode_def)

lemma superseded_mask_app [simp]:
  "superseded_mask (cfg\<lparr>app := s\<rparr>) r = superseded_mask cfg r"
  by (simp add: superseded_mask_def)

lemma superseded_encode_commit:
  "superseded_encode cfg r \<Longrightarrow> superseded_encode (commit l e m cfg) r"
  by (auto simp: superseded_encode_def commit_def Let_def cleanupEncode_def cleanupMask_def
      runPermalinkEffect_def startEncode_def startMask_def
      split: option.splits prod.splits if_splits)

lemma superseded_mask_commit:
  "superseded_mask cfg r \<Longrightarrow> superseded_mask (commit l e m cfg) r"
  by (auto simp: superseded_mask_def commit_def Let_def cleanupEncode_def cleanupMask_def
      runPermalinkEffect_def startEncode_def startMask_def
      split: option.splits prod.splits if_splits)

lemma superseded_encode_step:
  "superseded_encode cfg r \<Longrightarrow> superseded_encode (step cfg ev) r"
  by (cases ev) (simp_all add: settle_def rerender_def superseded_encode_commit)

lemma superseded_mask_step:
  "superseded_mask cfg r \<Longrightarrow> superseded_mask (step cfg ev) r"
  by (cases ev) (simp_all add: settle_def rerender_def superseded_mask_commit)

lemma superseded_encode_foldl:
  "superseded_encode cfg r \<Longrightarrow> superseded_encode (foldl step cfg events) r"
  by (induction events arbitrary: cfg) (simp_all add: superseded_encode_step)

lemma superseded_mask_foldl:
  "superseded_mask cfg r \<Longrightarrow> superseded_mask (foldl step cfg events) r"
  by (induction events arbitrary: cfg) (simp_all add: superseded_mask_step)

lemma run_append: "run w (events @ later) = foldl step (run w events) later"
  by (simp add: run_def)

lemma run_snoc: "run w (events @ [ev]) = step (run w events) ev"
  by (simp add: run_def)

lemma app_same [simp]: "cfg\<lparr>app := app cfg\<rparr> = cfg"
  by simp

lemma stale_encode_completion:
  assumes "flags_current cfg" and "enc_current cfg \<noteq> Some r"
  shows "step cfg (EncodeResolved r dataUrl) = cfg" and "step cfg (EncodeRejected r) = cfg"
proof -
  from assms have "\<not> enc_active cfg r" by (auto simp: flags_current_def)
  then show "step cfg (EncodeResolved r dataUrl) = cfg" "step cfg (EncodeRejected r) = cfg"
    by (simp_all add: encodeThen_def encodeCatch_def rerender_def)
qed

lemma stale_mask_completion:
  assumes "flags_current cfg" and "mask_current cfg \<noteq> Some r"
  shows "step cfg (MaskResolved r result) = cfg" and "step cfg (MaskRejected r) = cfg"
proof -
  from assms have "\<not> mask_active cfg r" by (auto simp: flags_current_def)
  then show "step cfg (MaskResolved r result) = cfg" "step cfg (MaskRejected r) = cfg"
    by (simp_all add: maskThen_def maskCatch_def)
qed

subsection \<open>A new input supersedes the runs before it\<close>

lemma commit_supersedes_encode:
  "r < enc_started cfg \<Longrightarrow> superseded_encode (commit l True m cfg) r"
  by (auto simp: superseded_encode_def commit_def Let_def cleanupEncode_def cleanupMask_def
      runPermalinkEffect_def startEncode_def startMask_def
      split: option.splits prod.splits if_splits)

lemma commit_supersedes_mask:
  "r < mask_started cfg \<Longrightarrow> superseded_mask (commit l e True cfg) r"
  by (auto simp: superseded_mask_def commit_def Let_def cleanupEncode_def cleanupMask_def
      runPermalinkEffect_def startEncode_def startMask_def
      split: option.splits prod.splits if_splits)

lemma settle_supersedes_encode:
  "r < enc_started cfg \<Longrightarrow> superseded_encode (settle l True m cfg) r"
  by (simp add: settle_def rerender_def commit_supersedes_encode superseded_encode_commit)

lemma settle_supersedes_mask:
  "r < mask_started cfg \<Longrightarrow> superseded_mask (settle l e True cfg) r"
  by (simp add: settle_def rerender_def commit_supersedes_mask superseded_mask_commit)

lemma rerender_supersedes_mask:
  "r < mask_started cfg \<Longrightarrow> app_qrDataUrl (app cfg) \<noteq> app_qrDataUrl s
     \<Longrightarrow> superseded_mask (rerender s cfg) r"
  by (simp add: rerender_def commit_supersedes_mask)

lemma app_rerender: "app (rerender s cfg) = app cfg"
  by (simp add: rerender_def commit_def Let_def cleanupMask_def startMask_def
      split: option.splits)

text \<open>
  Claim C7. In every sequence of events, a run of the encode or of the mask effect
  that has been superseded stays without effect: whatever happens later, the
  completion of its promise, fulfilled or rejected, leaves the whole configuration as
  it is, and so overwrites nothing a newer run has set. And every new input supersedes
  the runs before it: a new text or new options those of the encode effect, a new text,
  new mask options or a new base image those of the mask effect.
\<close>

theorem stale_completions_are_discarded:
  "(superseded_encode (run w events) r \<longrightarrow>
      step (run w (events @ later)) (EncodeResolved r dataUrl) = run w (events @ later)
      \<and> step (run w (events @ later)) (EncodeRejected r) = run w (events @ later))
   \<and> (superseded_mask (run w events) r \<longrightarrow>
      step (run w (events @ later)) (MaskResolved r result) = run w (events @ later)
      \<and> step (run w (events @ later)) (MaskRejected r) = run w (events @ later))
   \<and> (r < enc_started (run w events) \<longrightarrow>
        (t \<noteq> app_text (app (run w events)) \<longrightarrow>
           superseded_encode (run w (events @ [SetText t])) r)
        \<and> superseded_encode (run w (events @ [SetOptions opts])) r
        \<and> superseded_encode (run w (events @ [ResetOptions])) r)
   \<and> (r < mask_started (run w events) \<longrightarrow>
        (t \<noteq> app_text (app (run w events)) \<longrightarrow>
           superseded_mask (run w (events @ [SetText t])) r)
        \<and> superseded_mask (run w (events @ [SetMaskOptions m])) r
        \<and> superseded_mask (run w (events @ [ResetOptions])) r
        \<and> (app_qrDataUrl (app (run w (events @ [EncodeResolved r' dataUrl])))
              \<noteq> app_qrDataUrl (app (run w events)) \<longrightarrow>
            superseded_mask (run w (events @ [EncodeResolved r' dataUrl])) r)
        \<and> (app_qrDataUrl (app (run w (events @ [EncodeRejected r'])))
              \<noteq> app_qrDataUrl (app (run w events)) \<longrightarrow>
            superseded_mask (run w (events @ [EncodeRejected r'])) r))"
proof (intro conjI impI)
  let ?c = "run w (events @ later)"
  have inv: "flags_current ?c" by (rule flags_current_run)
  {
    assume "superseded_encode (run w events) r"
    then have "superseded_encode ?c r" unfolding run_append by (rule superseded_encode_foldl)
    then have cur: "enc_current ?c \<noteq> Some r" by (simp add: superseded_encode_def)
    show "step ?c (EncodeResolved r dataUrl) = ?c" by (rule stale_encode_completion(1) [OF inv cur])
    show "step ?c (EncodeRejected r) = ?c" by (rule stale_encode_completion(2) [OF inv cur])
  }
  {
    assume "superseded_mask (run w events) r"
    then have "superseded_mask ?c r" unfolding run_append by (rule superseded_mask_foldl)
    then have cur: "mask_current ?c \<noteq> Some r" by (simp add: superseded_mask_def)
    show "step ?c (MaskResolved r result) = ?c" by (rule stale_mask_completion(1) [OF inv cur])
    show "step ?c (MaskRejected r) = ?c" by (rule stale_mask_completion(2) [OF inv cur])
  }
  {
    assume e: "r < enc_started (run w events)"
    show "superseded_encode (run w (events @ [SetOptions opts])) r"
      using e by (simp add: run_snoc settle_supersedes_encode)
    show "superseded_encode (run w (events @ [ResetOptions])) r"
      using e by (simp add: run_snoc settle_supersedes_encode)
    assume "t \<noteq> app_text (app (run w events))"
    then show "superseded_encode (run w (events @ [SetText t])) r"
      using e by (simp add: run_snoc settle_supersedes_encode)
  }
  {
    assume k: "r < mask_started (run w events)"
    show "superseded_mask (run w (events @ [SetMaskOptions m])) r"
      using k by (simp add: run_snoc settle_supersedes_mask)
    show "superseded_mask (run w (events @ [ResetOptions])) r"
      using k by (simp add: run_snoc settle_supersedes_mask)
    {
      assume "t \<noteq> app_text (app (run w events))"
      then show "superseded_mask (run w (events @ [SetText t])) r"
        using k by (simp add: run_snoc settle_supersedes_mask)
    }
    {
      assume "app_qrDataUrl (app (run w (events @ [EncodeResolved r' dataUrl])))
              \<noteq> app_qrDataUrl (app (run w events))"
      then show "superseded_mask (run w (events @ [EncodeResolved r' dataUrl])) r"
        using k by (simp add: run_snoc app_rerender rerender_supersedes_mask)
    }
    {
      assume "app_qrDataUrl (app (run w (events @ [EncodeRejected r'])))
              \<noteq> app_qrDataUrl (app (run w events))"
      then show "superseded_mask (run w (events @ [EncodeRejected r'])) r"
        using k by (simp add: run_snoc app_rerender rerender_supersedes_mask)
    }
  }
qed

subsection \<open>The component without a window, after its first rendering\<close>

lemma trim_example: "trim ''https://example.com'' = ''https://example.com''"
  by (simp add: trim_def ws1_def ws2_def ws3_def)

lemma trim_b: "trim ''b'' = ''b''"
  by (simp add: trim_def ws1_def ws2_def ws3_def)

lemma mount_None:
  "mount None =
     \<lparr>app = \<lparr>app_text = ''https://example.com'', app_options = defaultOptions,
             app_maskOptions = defaultMaskOptions, app_qrDataUrl = [], app_maskedDataUrl = [],
             app_decodeStatus = untested, app_errorMessage = []\<rparr>,
      win = None,
      enc_active = (\<lambda>r. False)(0 := True), enc_current = Some 0, enc_started = Suc 0,
      enc_calls = [(0, makeQrDataUrl ''https://example.com'' defaultOptions)],
      mask_active = (\<lambda>r. False), mask_current = None, mask_started = 0, mask_calls = []\<rparr>"
  by (simp add: mount_def settle_def rerender_def commit_def Let_def cleanupEncode_def
      cleanupMask_def runPermalinkEffect_def permalinkEffect_def startEncode_def startMask_def
      encodeEffect_def maskEffect_def initialState_def parsePermalinkState_def trim_example)

lemma run_None_Nil: "run None [] = mount None"
  by (simp add: run_def)

theorem stale_completions_are_discarded_witness:
  "0 < enc_started (run None [])
   \<and> ''b'' \<noteq> app_text (app (run None []))
   \<and> superseded_encode (run None ([] @ [SetText ''b''])) 0
   \<and> step (run None ([SetText ''b''] @ [EncodeResolved 1 ''data:B''])) (EncodeResolved 0 ''data:A'')
       = run None ([SetText ''b''] @ [EncodeResolved 1 ''data:B''])
   \<and> 0 < mask_started (run None [EncodeResolved 0 ''data:A''])
   \<and> superseded_mask (run None ([EncodeResolved 0 ''data:A''] @ [SetMaskOptions defaultMaskOptions])) 0
   \<and> step (run None ([EncodeResolved 0 ''data:A'', SetMaskOptions defaultMaskOptions] @ []))
          (MaskResolved 0 \<lparr>maskedDataUrl = ''data:M'', decodeStatus = success\<rparr>)
       = run None ([EncodeResolved 0 ''data:A'', SetMaskOptions defaultMaskOptions] @ [])"
proof -
  have a: "0 < enc_started (run None [])" by (simp add: run_None_Nil mount_None)
  have b: "''b'' \<noteq> app_text (app (run None []))" by (simp add: run_None_Nil mount_None)
  have c: "superseded_encode (run None ([] @ [SetText ''b''])) 0"
    using stale_completions_are_discarded [of None "[]" 0 _ _ _ "''b''"] a b by blast
  then have c': "superseded_encode (run None [SetText ''b'']) 0" by simp
  have d: "step (run None ([SetText ''b''] @ [EncodeResolved 1 ''data:B''])) (EncodeResolved 0 ''data:A'')
       = run None ([SetText ''b''] @ [EncodeResolved 1 ''data:B''])"
    using stale_completions_are_discarded
      [of None "[SetText ''b'']" 0 "[EncodeResolved 1 ''data:B'']" "''data:A''"] c'
    by blast
  have e: "0 < mask_started (run None [EncodeResolved 0 ''data:A''])"
    by (simp add: run_def mount_None encodeThen_def rerender_def commit_def Let_def
        cleanupMask_def startMask_def maskEffect_def)
  have f: "superseded_mask (run None ([EncodeResolved 0 ''data:A''] @ [SetMaskOptions defaultMaskOptions])) 0"
    using stale_completions_are_discarded
      [of None "[EncodeResolved 0 ''data:A'']" 0 _ _ _ _ _ defaultMaskOptions] e
    by blast
  then have f': "superseded_mask (run None [EncodeResolved 0 ''data:A'', SetMaskOptions defaultMaskOptions]) 0"
    by simp
  have g: "step (run None ([EncodeResolved 0 ''data:A'', SetMaskOptions defaultMaskOptions] @ []))
          (MaskResolved 0 \<lparr>maskedDataUrl = ''data:M'', decodeStatus = success\<rparr>)
       = run None ([EncodeResolved 0 ''data:A'', SetMaskOptions defaultMaskOptions] @ [])"
    using stale_completions_are_discarded
      [of None "[EncodeResolved 0 ''data:A'', SetMaskOptions defaultMaskOptions]" 0 "[]" _
        "\<lparr>maskedDataUrl = ''data:M'', decodeStatus = success\<rparr>"] f'
    by blast
  from a b c d e f g show ?thesis by blast
qed

subsection \<open>A failing encoder\<close>

lemma app_step_EncodeRejected:
  "app (step cfg (EncodeRejected r)) = encodeCatch (enc_active cfg r) (app cfg)"
  by (simp add: app_rerender)

lemma enc_fields_rerender:
  "enc_started (rerender s cfg) = enc_started cfg"
  "enc_current (rerender s cfg) = enc_current cfg"
  "enc_active (rerender s cfg) = enc_active cfg"
  by (simp_all add: rerender_def commit_def Let_def cleanupMask_def startMask_def
      split: option.splits)

lemma before_startEncode:
  "app (cleanupEncode c) = app c" "app (cleanupMask c) = app c" "app (runPermalinkEffect c) = app c"
  "enc_started (cleanupEncode c) = enc_started c" "enc_started (cleanupMask c) = enc_started c"
  "enc_started (runPermalinkEffect c) = enc_started c"
  by (simp_all add: cleanupEncode_def cleanupMask_def runPermalinkEffect_def split: option.splits)

lemma startEncode_nonblank:
  assumes "trim (app_text (app c)) \<noteq> []"
  shows "app (startEncode c) = (app c)\<lparr>app_errorMessage := []\<rparr>"
    and "enc_current (startEncode c) = Some (enc_started c)"
    and "enc_active (startEncode c) (enc_started c)"
  using assms by (simp_all add: startEncode_def encodeEffect_def Let_def)

lemma after_startMask:
  "app (startMask s c) = app c" "enc_current (startMask s c) = enc_current c"
  "enc_active (startMask s c) = enc_active c"
  by (simp_all add: startMask_def split: option.splits)

lemma encode_run_after_SetText:
  assumes "t \<noteq> app_text (app cfg)" and "trim t \<noteq> []"
  shows "app_errorMessage (app (step cfg (SetText t))) = []"
    and "enc_current (step cfg (SetText t)) = Some (enc_started cfg)"
    and "enc_active (step cfg (SetText t)) (enc_started cfg)"
proof -
  define c0 where "c0 = cfg\<lparr>app := (app cfg)\<lparr>app_text := t\<rparr>\<rparr>"
  define c3 where "c3 = runPermalinkEffect (cleanupMask (cleanupEncode c0))"
  have a3: "app c3 = app c0" and s3: "enc_started c3 = enc_started cfg"
    by (simp_all add: c3_def before_startEncode c0_def)
  have nb: "trim (app_text (app c3)) \<noteq> []" using assms(2) by (simp add: a3 c0_def)
  have cm: "commit True True True c0 = startMask (app c0) (startEncode c3)"
    by (simp add: commit_def Let_def c3_def)
  have ap: "app (commit True True True c0) = (app c0)\<lparr>app_errorMessage := []\<rparr>"
    by (simp only: cm after_startMask startEncode_nonblank(1) [OF nb] a3)
  then have same: "app_qrDataUrl (app (commit True True True c0)) = app_qrDataUrl (app c0)"
    by simp
  have st: "step cfg (SetText t) = commit True True True c0"
    using assms(1) same by (simp add: settle_def rerender_def c0_def)
  show "app_errorMessage (app (step cfg (SetText t))) = []"
    by (simp only: st ap) simp
  show "enc_current (step cfg (SetText t)) = Some (enc_started cfg)"
    by (simp only: st cm after_startMask startEncode_nonblank(2) [OF nb] s3)
  show "enc_active (step cfg (SetText t)) (enc_started cfg)"
    using startEncode_nonblank(3) [OF nb] by (simp only: st cm after_startMask s3)
qed

text \<open>
  Claim C3 says that after a failure of the encoder no decode status is shown. The
  handler sets the status to \<open>failed\<close> (line 244), and the component shows the
  message of every status but \<open>untested\<close> (line 420): after the failure of its first
  encoder call the component shows the error message and, under the empty preview, the
  message of the failed status.
\<close>

theorem encode_failure_shows_the_failed_status:
  "render (app (run None [EncodeRejected 0]))
     = \<lparr>flash = Some ''Failed to generate QR code. Please check your inputs.'',
        preview = None,
        decodeText = Some ([CHR 0xE2, CHR 0x9D, CHR 0x8C] @ '' Unreable'')\<rparr>
   \<and> decodeText (render (app (run None [EncodeRejected 0]))) \<noteq> None"
proof -
  have "app (run None [EncodeRejected 0]) = encodeCatch True (app (mount None))"
    using app_step_EncodeRejected [of "mount None" 0] by (simp add: run_def mount_None)
  then show ?thesis
    by (simp add: mount_None encodeCatch_def render_def Let_def)
qed

text \<open>
  Claim C3, amended. When the encoder fails for the run of the encode effect whose
  flag is set, the state gets the one error message, the base image and the masked
  image are cleared and the decode status is \<open>failed\<close>, so that the component shows
  the error message, no image and the message of the failed status; the text and the
  options stay. The component goes on: the next text that is new and not blank clears
  the error message and starts a run of the encode effect. When the flag of the run is
  not set, its failure changes nothing.
\<close>

theorem encode_failure_is_reported_and_resets:
  "(enc_active cfg r \<longrightarrow>
      app (step cfg (EncodeRejected r)) =
        (app cfg)\<lparr>app_errorMessage := ''Failed to generate QR code. Please check your inputs.'',
                  app_qrDataUrl := [], app_maskedDataUrl := [], app_decodeStatus := failed\<rparr>
      \<and> render (app (step cfg (EncodeRejected r))) =
          \<lparr>flash = Some ''Failed to generate QR code. Please check your inputs.'',
           preview = None, decodeText = Some (getDecodeMessage failed)\<rparr>
      \<and> (t \<noteq> app_text (app cfg) \<and> trim t \<noteq> [] \<longrightarrow>
           app_errorMessage (app (step (step cfg (EncodeRejected r)) (SetText t))) = []
           \<and> enc_current (step (step cfg (EncodeRejected r)) (SetText t)) = Some (enc_started cfg)
           \<and> enc_active (step (step cfg (EncodeRejected r)) (SetText t)) (enc_started cfg)))
   \<and> (\<not> enc_active cfg r \<longrightarrow> step cfg (EncodeRejected r) = cfg)"
proof (intro conjI impI)
  assume "\<not> enc_active cfg r"
  then show "step cfg (EncodeRejected r) = cfg"
    by (simp add: encodeCatch_def rerender_def)
next
  assume a: "enc_active cfg r"
  then show "app (step cfg (EncodeRejected r)) =
        (app cfg)\<lparr>app_errorMessage := ''Failed to generate QR code. Please check your inputs.'',
                  app_qrDataUrl := [], app_maskedDataUrl := [], app_decodeStatus := failed\<rparr>"
    by (simp only: app_step_EncodeRejected encodeCatch_def) simp
next
  assume a: "enc_active cfg r"
  then show "render (app (step cfg (EncodeRejected r))) =
          \<lparr>flash = Some ''Failed to generate QR code. Please check your inputs.'',
           preview = None, decodeText = Some (getDecodeMessage failed)\<rparr>"
    by (simp only: app_step_EncodeRejected encodeCatch_def) (simp add: render_def Let_def)
next
  let ?c = "step cfg (EncodeRejected r)"
  assume "enc_active cfg r" and "t \<noteq> app_text (app cfg) \<and> trim t \<noteq> []"
  then have t: "t \<noteq> app_text (app ?c)" "trim t \<noteq> []"
    by (simp_all only: app_step_EncodeRejected encodeCatch_def) simp_all
  show "app_errorMessage (app (step ?c (SetText t))) = []"
    by (rule encode_run_after_SetText(1) [OF t])
next
  let ?c = "step cfg (EncodeRejected r)"
  assume "enc_active cfg r" and "t \<noteq> app_text (app cfg) \<and> trim t \<noteq> []"
  then have t: "t \<noteq> app_text (app ?c)" "trim t \<noteq> []"
    by (simp_all only: app_step_EncodeRejected encodeCatch_def) simp_all
  have s: "enc_started ?c = enc_started cfg" by (simp add: enc_fields_rerender)
  show "enc_current (step ?c (SetText t)) = Some (enc_started cfg)"
    using encode_run_after_SetText(2) [OF t] by (simp only: s)
next
  let ?c = "step cfg (EncodeRejected r)"
  assume "enc_active cfg r" and "t \<noteq> app_text (app cfg) \<and> trim t \<noteq> []"
  then have t: "t \<noteq> app_text (app ?c)" "trim t \<noteq> []"
    by (simp_all only: app_step_EncodeRejected encodeCatch_def) simp_all
  have s: "enc_started ?c = enc_started cfg" by (simp add: enc_fields_rerender)
  show "enc_active (step ?c (SetText t)) (enc_started cfg)"
    using encode_run_after_SetText(3) [OF t] by (simp only: s)
qed

theorem encode_failure_is_reported_and_resets_witness:
  "enc_active (run None []) 0
   \<and> ''b'' \<noteq> app_text (app (run None [])) \<and> trim ''b'' \<noteq> []
   \<and> app (run None [EncodeRejected 0]) =
       \<lparr>app_text = ''https://example.com'', app_options = defaultOptions,
        app_maskOptions = defaultMaskOptions, app_qrDataUrl = [], app_maskedDataUrl = [],
        app_decodeStatus = failed,
        app_errorMessage = ''Failed to generate QR code. Please check your inputs.''\<rparr>
   \<and> app_errorMessage (app (run None [EncodeRejected 0, SetText ''b''])) = []
   \<and> enc_current (run None [EncodeRejected 0, SetText ''b'']) = Some 1
   \<and> \<not> enc_active (run None [SetText ''b'']) 0
   \<and> step (run None [SetText ''b'']) (EncodeRejected 0) = run None [SetText ''b'']"
proof -
  have a: "enc_active (run None []) 0" by (simp add: run_None_Nil mount_None)
  have b: "''b'' \<noteq> app_text (app (run None [])) \<and> trim ''b'' \<noteq> []"
    by (simp add: run_None_Nil mount_None trim_b)
  have s: "enc_started (run None []) = 1" by (simp add: run_None_Nil mount_None)
  note t = encode_failure_is_reported_and_resets [of "run None []" 0 "''b''"]
  from t a have c: "app (step (run None []) (EncodeRejected 0)) =
        (app (run None []))\<lparr>app_errorMessage := ''Failed to generate QR code. Please check your inputs.'',
                  app_qrDataUrl := [], app_maskedDataUrl := [], app_decodeStatus := failed\<rparr>"
    by blast
  from t a b have d: "app_errorMessage (app (step (step (run None []) (EncodeRejected 0)) (SetText ''b''))) = []"
    "enc_current (step (step (run None []) (EncodeRejected 0)) (SetText ''b'')) = Some (enc_started (run None []))"
    by blast+
  have n: "\<not> enc_active (run None [SetText ''b'']) 0"
    by (simp add: run_def mount_None settle_def rerender_def commit_def Let_def cleanupEncode_def
        cleanupMask_def runPermalinkEffect_def permalinkEffect_def startEncode_def startMask_def
        encodeEffect_def maskEffect_def trim_b)
  with encode_failure_is_reported_and_resets [of "run None [SetText ''b'']" 0]
  have e: "step (run None [SetText ''b'']) (EncodeRejected 0) = run None [SetText ''b'']"
    by blast
  have r1: "run None [EncodeRejected 0] = step (run None []) (EncodeRejected 0)"
    by (simp add: run_def)
  have r2: "run None [EncodeRejected 0, SetText ''b'']
      = step (step (run None []) (EncodeRejected 0)) (SetText ''b'')"
    by (simp add: run_def)
  have c': "app (run None [EncodeRejected 0]) =
       \<lparr>app_text = ''https://example.com'', app_options = defaultOptions,
        app_maskOptions = defaultMaskOptions, app_qrDataUrl = [], app_maskedDataUrl = [],
        app_decodeStatus = failed,
        app_errorMessage = ''Failed to generate QR code. Please check your inputs.''\<rparr>"
    unfolding r1 c by (simp add: run_None_Nil mount_None)
  from a b c' d n e show ?thesis unfolding r2 s by simp
qed

subsection \<open>The text in the permalink and the text in the code\<close>

lemma get_t_createPermalink:
  "get (URLSearchParams (createPermalink (Some w) t opts m)) ''t'' = Some t"
  by (simp add: URLSearchParams_createPermalink get_def del: NumberToString.simps)

lemma st_text_roundtrip:
  "st_text (parsePermalinkState (Some (w\<lparr>search := createPermalink (Some w) t opts m\<rparr>))) = t"
  using get_t_createPermalink [of w t opts m]
  by (simp add: parsePermalinkState_def Let_def)

lemma encodeEffect_call:
  "snd (encodeEffect s) =
     (if trim (app_text s) = [] then None
      else Some (makeQrDataUrl (trim (app_text s)) (app_options s)))"
  by (simp add: encodeEffect_def Let_def)

text \<open>What every call of the encoder is like: its text is a trimmed text, and not empty.\<close>

lemma calls_other:
  "enc_calls (cleanupEncode c) = enc_calls c" "enc_calls (cleanupMask c) = enc_calls c"
  "enc_calls (runPermalinkEffect c) = enc_calls c" "enc_calls (startMask s c) = enc_calls c"
  by (simp_all add: cleanupEncode_def cleanupMask_def runPermalinkEffect_def startMask_def
      split: option.splits)

lemma calls_startEncode:
  assumes "\<forall>rc\<in>set (enc_calls c). \<exists>t opts. snd rc = makeQrDataUrl (trim t) opts \<and> trim t \<noteq> []"
  shows "\<forall>rc\<in>set (enc_calls (startEncode c)).
           \<exists>t opts. snd rc = makeQrDataUrl (trim t) opts \<and> trim t \<noteq> []"
  using assms by (auto simp: startEncode_def encodeEffect_def Let_def)

lemma calls_commit:
  assumes "\<forall>rc\<in>set (enc_calls cfg). \<exists>t opts. snd rc = makeQrDataUrl (trim t) opts \<and> trim t \<noteq> []"
  shows "\<forall>rc\<in>set (enc_calls (commit l e m cfg)).
           \<exists>t opts. snd rc = makeQrDataUrl (trim t) opts \<and> trim t \<noteq> []"
proof -
  define c3 where "c3 = (let c1 = (if e then cleanupEncode cfg else cfg);
                             c2 = (if m then cleanupMask c1 else c1)
                         in if l then runPermalinkEffect c2 else c2)"
  have c3: "enc_calls c3 = enc_calls cfg" by (simp add: c3_def Let_def calls_other)
  have p3: "\<forall>rc\<in>set (enc_calls c3). \<exists>t opts. snd rc = makeQrDataUrl (trim t) opts \<and> trim t \<noteq> []"
    using assms by (simp only: c3)
  have cm: "commit l e m cfg =
      (let c4 = (if e then startEncode c3 else c3) in if m then startMask (app cfg) c4 else c4)"
    by (simp add: commit_def c3_def Let_def)
  show ?thesis
    using p3 calls_startEncode [OF p3] by (simp add: cm Let_def calls_other)
qed

lemma calls_rerender:
  assumes "\<forall>rc\<in>set (enc_calls c). \<exists>t opts. snd rc = makeQrDataUrl (trim t) opts \<and> trim t \<noteq> []"
  shows "\<forall>rc\<in>set (enc_calls (rerender s c)).
           \<exists>t opts. snd rc = makeQrDataUrl (trim t) opts \<and> trim t \<noteq> []"
  using assms calls_commit [OF assms, of False False True] by (simp add: rerender_def)

lemma calls_settle:
  assumes "\<forall>rc\<in>set (enc_calls c). \<exists>t opts. snd rc = makeQrDataUrl (trim t) opts \<and> trim t \<noteq> []"
  shows "\<forall>rc\<in>set (enc_calls (settle l e m c)).
           \<exists>t opts. snd rc = makeQrDataUrl (trim t) opts \<and> trim t \<noteq> []"
  unfolding settle_def by (rule calls_rerender [OF calls_commit [OF assms]])

lemma calls_app:
  assumes "\<forall>rc\<in>set (enc_calls c). \<exists>t opts. snd rc = makeQrDataUrl (trim t) opts \<and> trim t \<noteq> []"
  shows "\<forall>rc\<in>set (enc_calls (c\<lparr>app := s\<rparr>)).
           \<exists>t opts. snd rc = makeQrDataUrl (trim t) opts \<and> trim t \<noteq> []"
  using assms by simp

lemma calls_step:
  assumes "\<forall>rc\<in>set (enc_calls cfg). \<exists>t opts. snd rc = makeQrDataUrl (trim t) opts \<and> trim t \<noteq> []"
  shows "\<forall>rc\<in>set (enc_calls (step cfg ev)).
           \<exists>t opts. snd rc = makeQrDataUrl (trim t) opts \<and> trim t \<noteq> []"
proof (cases ev)
  case (SetText t)
  show ?thesis
    unfolding SetText step.simps
    using assms calls_settle [OF calls_app [OF assms]] by (simp only: split: if_split) blast
next
  case (SetOptions opts)
  show ?thesis unfolding SetOptions step.simps by (rule calls_settle [OF calls_app [OF assms]])
next
  case (SetMaskOptions m)
  show ?thesis unfolding SetMaskOptions step.simps by (rule calls_settle [OF calls_app [OF assms]])
next
  case ResetOptions
  show ?thesis unfolding ResetOptions step.simps by (rule calls_settle [OF calls_app [OF assms]])
next
  case (EncodeResolved r u)
  show ?thesis unfolding EncodeResolved step.simps by (rule calls_rerender [OF calls_app [OF assms]])
next
  case (EncodeRejected r)
  show ?thesis unfolding EncodeRejected step.simps by (rule calls_rerender [OF calls_app [OF assms]])
next
  case (MaskResolved r res)
  show ?thesis unfolding MaskResolved step.simps by (rule calls_app [OF assms])
next
  case (MaskRejected r)
  show ?thesis unfolding MaskRejected step.simps by (rule calls_app [OF assms])
qed

lemma calls_foldl:
  assumes "\<forall>rc\<in>set (enc_calls cfg). \<exists>t opts. snd rc = makeQrDataUrl (trim t) opts \<and> trim t \<noteq> []"
  shows "\<forall>rc\<in>set (enc_calls (foldl step cfg events)).
           \<exists>t opts. snd rc = makeQrDataUrl (trim t) opts \<and> trim t \<noteq> []"
  using assms
proof (induction events arbitrary: cfg)
  case Nil
  then show ?case by simp
next
  case (Cons ev events)
  from Cons.IH [OF calls_step [OF Cons.prems]] show ?case by simp
qed

lemma calls_run:
  "\<forall>rc\<in>set (enc_calls (run w events)).
     \<exists>t opts. snd rc = makeQrDataUrl (trim t) opts \<and> trim t \<noteq> []"
proof -
  let ?c0 = "\<lparr>app = initialState w, win = w,
        enc_active = (\<lambda>r. False), enc_current = None, enc_started = 0, enc_calls = [],
        mask_active = (\<lambda>r. False), mask_current = None, mask_started = 0, mask_calls = []\<rparr>"
  have "\<forall>rc\<in>set (enc_calls ?c0). \<exists>t opts. snd rc = makeQrDataUrl (trim t) opts \<and> trim t \<noteq> []"
    by simp
  then have "\<forall>rc\<in>set (enc_calls (mount w)).
      \<exists>t opts. snd rc = makeQrDataUrl (trim t) opts \<and> trim t \<noteq> []"
    unfolding mount_def by (rule calls_settle)
  then show ?thesis unfolding run_def by (rule calls_foldl)
qed

text \<open>
  Claim C10. The permalink is made of the text as it was typed: it is stored under
  the key \<open>t\<close>, and decoding the permalink gives it back with its white space,
  whatever the options are. The encode effect calls the encoder only when the trimmed
  text is not empty, and then with the trimmed text; so does every run of the effect
  in every sequence of events. The mask effect hands the text as typed to
  \<open>applyMaskAndTest\<close>, whose classifier compares what was decoded with the trimmed
  text.
\<close>

theorem permalink_has_raw_text_and_encoder_trimmed_text:
  "st_text (parsePermalinkState (Some (w\<lparr>search := createPermalink (Some w) t opts m\<rparr>))) = t
   \<and> get (URLSearchParams (createPermalink (Some w) t opts m)) ''t'' = Some t
   \<and> permalinkEffect (Some w) s =
       Some (createPermalink (Some w) (app_text s) (app_options s) (app_maskOptions s))
   \<and> snd (encodeEffect s) =
       (if trim (app_text s) = [] then None
        else Some (makeQrDataUrl (trim (app_text s)) (app_options s)))
   \<and> call_text (makeQrDataUrl (trim (app_text s)) (app_options s)) = trim (app_text s)
   \<and> (\<forall>rc\<in>set (enc_calls (run w' events)).
         \<exists>t' opts'. snd rc = makeQrDataUrl (trim t') opts' \<and> trim t' \<noteq> [])
   \<and> maskEffect s =
       (if app_qrDataUrl s = [] then None
        else Some (app_qrDataUrl s, app_text s, app_maskOptions s))
   \<and> (classify t decoded = success) = (trim t \<noteq> [] \<and> decoded = Some (trim t))"
proof (intro conjI)
  show "st_text (parsePermalinkState (Some (w\<lparr>search := createPermalink (Some w) t opts m\<rparr>))) = t"
    by (rule st_text_roundtrip)
  show "get (URLSearchParams (createPermalink (Some w) t opts m)) ''t'' = Some t"
    by (rule get_t_createPermalink)
  show "permalinkEffect (Some w) s =
       Some (createPermalink (Some w) (app_text s) (app_options s) (app_maskOptions s))"
    by (simp add: permalinkEffect_def)
  show "snd (encodeEffect s) =
       (if trim (app_text s) = [] then None
        else Some (makeQrDataUrl (trim (app_text s)) (app_options s)))"
    by (rule encodeEffect_call)
  show "call_text (makeQrDataUrl (trim (app_text s)) (app_options s)) = trim (app_text s)"
    by (simp add: makeQrDataUrl_def)
  show "\<forall>rc\<in>set (enc_calls (run w' events)).
         \<exists>t' opts'. snd rc = makeQrDataUrl (trim t') opts' \<and> trim t' \<noteq> []"
    by (rule calls_run)
  show "maskEffect s =
       (if app_qrDataUrl s = [] then None
        else Some (app_qrDataUrl s, app_text s, app_maskOptions s))"
    by (simp add: maskEffect_def)
  show "(classify t decoded = success) = (trim t \<noteq> [] \<and> decoded = Some (trim t))"
    by (simp add: classify_eq)
qed

lemma int_digits_18: "int_digits 18 = ''18''"
  by (simp add: int_digits.simps digit_char_def char_of_def bit_iff_odd)

lemma NumberToString_18: "NumberToString (Fin 18) = ''18''"
  using NumberToString_int [of 18] by (simp add: int_digits_18 del: NumberToString.simps)

lemma trim_hi: "trim '' hi '' = ''hi''"
  by (simp add: trim_def ws1_def ws2_def ws3_def)

theorem permalink_has_raw_text_and_encoder_trimmed_text_witness:
  "createPermalink (Some \<lparr>search = [], pathname = ''/''\<rparr>) '' hi '' defaultOptions defaultMaskOptions
     = ''?t=+hi+&e=M&ms=18&mx=50&my=50&mo=100''
   \<and> st_text (parsePermalinkState
         (Some \<lparr>search = ''?t=+hi+&e=M&ms=18&mx=50&my=50&mo=100'', pathname = ''/''\<rparr>)) = '' hi ''
   \<and> snd (encodeEffect
         \<lparr>app_text = '' hi '', app_options = defaultOptions, app_maskOptions = defaultMaskOptions,
          app_qrDataUrl = [], app_maskedDataUrl = [], app_decodeStatus = untested,
          app_errorMessage = []\<rparr>)
     = Some (makeQrDataUrl ''hi'' defaultOptions)
   \<and> map (call_text \<circ> snd) (enc_calls (run None [SetText '' hi ''])) = [''https://example.com'', ''hi'']
   \<and> classify '' hi '' (Some ''hi'') = success
   \<and> classify '' hi '' (Some '' hi '') = failed"
proof -
  let ?w = "\<lparr>search = [], pathname = ''/''\<rparr>"
  let ?s = "\<lparr>app_text = '' hi '', app_options = defaultOptions, app_maskOptions = defaultMaskOptions,
          app_qrDataUrl = [], app_maskedDataUrl = [], app_decodeStatus = untested,
          app_errorMessage = []\<rparr>"
  note t = permalink_has_raw_text_and_encoder_trimmed_text
    [of ?w "'' hi ''" defaultOptions defaultMaskOptions ?s None "[]" "Some ''hi''"]
  have enc: "createPermalink (Some ?w) '' hi '' defaultOptions defaultMaskOptions
     = ''?t=+hi+&e=M&ms=18&mx=50&my=50&mo=100''"
    by (simp add: createPermalink_query defaultOptions_def defaultMaskOptions_def
        NumberToString_18 NumberToString_50 NumberToString_100
        serialize_bytes_def serialize_byte_def urlencoded_safe_def del: NumberToString.simps)
  from t have "st_text (parsePermalinkState
      (Some (?w\<lparr>search := createPermalink (Some ?w) '' hi '' defaultOptions defaultMaskOptions\<rparr>)))
      = '' hi ''"
    by blast
  then have dec: "st_text (parsePermalinkState
         (Some \<lparr>search = ''?t=+hi+&e=M&ms=18&mx=50&my=50&mo=100'', pathname = ''/''\<rparr>)) = '' hi ''"
    by (simp only: enc window.update_convs)
  from t have "snd (encodeEffect ?s) =
       (if trim (app_text ?s) = [] then None
        else Some (makeQrDataUrl (trim (app_text ?s)) (app_options ?s)))"
    by blast
  then have call: "snd (encodeEffect ?s) = Some (makeQrDataUrl ''hi'' defaultOptions)"
    by (simp add: trim_hi)
  have calls: "map (call_text \<circ> snd) (enc_calls (run None [SetText '' hi '']))
      = [''https://example.com'', ''hi'']"
    by (simp add: run_def mount_None settle_def rerender_def commit_def Let_def cleanupEncode_def
        cleanupMask_def runPermalinkEffect_def permalinkEffect_def startEncode_def startMask_def
        encodeEffect_def maskEffect_def trim_hi makeQrDataUrl_def)
  from t have "(classify '' hi '' (Some ''hi'') = success)
      = (trim '' hi '' \<noteq> [] \<and> Some ''hi'' = Some (trim '' hi ''))"
    by blast
  then have ok: "classify '' hi '' (Some ''hi'') = success" by (simp add: trim_hi)
  have no: "classify '' hi '' (Some '' hi '') = failed" by (simp add: classify_eq trim_hi)
  from enc dec call calls ok no show ?thesis by simp
qed

end
